theory Spec2Isabelle
  imports Complex_Main
begin

section \<open>Python strings and integer literals\<close>

text \<open>
  Strings are lists of characters; a character stands for a code point below 256.
  \<open>isspace\<close> is the set that \<^verbatim>\<open>str.strip()\<close>, \<^verbatim>\<open>str.isspace()\<close> and the
  regular expression class \<^verbatim>\<open>\s\<close> use in that range; \<open>isdigit\<close> is the class
  \<^verbatim>\<open>\d\<close> there.
\<close>

definition isspace :: "char \<Rightarrow> bool" where
  "isspace c \<longleftrightarrow> List.member
     [CHR 0x09, CHR 0x0A, CHR 0x0B, CHR 0x0C, CHR 0x0D, CHR 0x1C, CHR 0x1D, CHR 0x1E,
      CHR 0x1F, CHR 0x20, CHR 0x85, CHR 0xA0] c"

definition isdigit :: "char \<Rightarrow> bool" where
  "isdigit c \<longleftrightarrow> List.member ''0123456789'' c"

definition digit_val :: "char \<Rightarrow> int" where
  "digit_val c = int (length (takeWhile (\<lambda>d. d \<noteq> c) ''0123456789''))"

text \<open>\<^verbatim>\<open>s.strip()\<close>: leading and trailing whitespace removed.\<close>

definition strip :: "string \<Rightarrow> string" where
  "strip s = rev (dropWhile isspace (rev (dropWhile isspace s)))"

text \<open>
  \<^verbatim>\<open>int(s)\<close> for a string \<open>s\<close>, base 10: surrounding whitespace is skipped, one sign
  is allowed, then decimal digits follow, where single underscores may separate digits.
  Anything else raises \<^verbatim>\<open>ValueError\<close>, here \<open>None\<close>. The whitespace \<^verbatim>\<open>int\<close> skips
  does not contain the separators 0x1C to 0x1F. A string of more digits than
  \<open>max_digits\<close> is refused with \<^verbatim>\<open>ValueError\<close> too: \<open>max_digits\<close> is
  \<^verbatim>\<open>sys.get_int_max_str_digits()\<close>, 4300 unless it was changed, and 0 for no limit.
\<close>

definition int_space :: "char \<Rightarrow> bool" where
  "int_space c \<longleftrightarrow> List.member
     [CHR 0x09, CHR 0x0A, CHR 0x0B, CHR 0x0C, CHR 0x0D, CHR 0x20, CHR 0x85, CHR 0xA0] c"

fun parse_digits :: "bool \<Rightarrow> int \<Rightarrow> string \<Rightarrow> int option" where
  "parse_digits prev acc [] = (if prev then Some acc else None)"
| "parse_digits prev acc (c # cs) =
     (if isdigit c then parse_digits True (10 * acc + digit_val c) cs
      else if c = CHR ''_'' \<and> prev then parse_digits False acc cs
      else None)"

definition int_of_str :: "nat \<Rightarrow> string \<Rightarrow> int option" where
  "int_of_str max_digits s =
     (if 0 < max_digits \<and> max_digits < length (filter isdigit s) then None
      else
        (case rev (dropWhile int_space (rev (dropWhile int_space s))) of
           [] \<Rightarrow> None
         | c # cs \<Rightarrow>
             if c = CHR ''+'' then parse_digits False 0 cs
             else if c = CHR ''-'' then map_option uminus (parse_digits False 0 cs)
             else parse_digits False 0 (c # cs)))"

text \<open>\<^verbatim>\<open>str(n)\<close> for a natural number, used when a page number is put into a URL.\<close>

fun digit_char :: "nat \<Rightarrow> char" where
  "digit_char n = ''0123456789'' ! (n mod 10)"

function str_nat :: "nat \<Rightarrow> string" where
  "str_nat n = (if n < 10 then [digit_char n] else str_nat (n div 10) @ [digit_char n])"
  by pat_completeness auto
termination
  by (relation "measure id") auto

text \<open>\<^verbatim>\<open>old in s\<close>: substring test.\<close>

fun contains :: "string \<Rightarrow> string \<Rightarrow> bool" where
  "contains pat [] = (pat = [])"
| "contains pat (c # cs) = (take (length pat) (c # cs) = pat \<or> contains pat cs)"

text \<open>
  \<^verbatim>\<open>s.replace(old, "")\<close> for a non-empty \<open>old\<close>: every occurrence found by a scan
  from the left is removed, and the scan goes on behind the occurrence.
\<close>

function remove_all :: "string \<Rightarrow> string \<Rightarrow> string" where
  "remove_all old [] = []"
| "remove_all old (c # cs) =
     (if old \<noteq> [] \<and> take (length old) (c # cs) = old
      then remove_all old (drop (length old) (c # cs))
      else c # remove_all old cs)"
  by pat_completeness auto
termination
  by (relation "measure (\<lambda>(old, s). length s)") auto

section \<open>The fetcher\<close>

text \<open>
  What \<^verbatim>\<open>requests.get(url)\<close> hands back, as far as \<^verbatim>\<open>fetch_url\<close> reads it: the status
  code, the body, and \<^verbatim>\<open>resp.headers.get("Retry-After")\<close> (\<open>None\<close> when the header
  is absent).
\<close>

record response =
  status_code :: int
  body :: string
  retry_after :: "string option"

datatype error = ValueError | OverflowError

text \<open>
  The effects that \<^verbatim>\<open>fetch_url\<close> has in the order it has them: the jittered pause
  \<^verbatim>\<open>time.sleep(random.uniform(1, 3))\<close>, the GET of a URL, and the pause
  \<^verbatim>\<open>time.sleep(n)\<close> of \<open>n\<close> seconds after a 429. Console output is left out.
\<close>

datatype event = Jitter_sleep | Request string | Sleep int

text \<open>
  The surroundings of a run. \<open>net url k\<close> is the response to the \<open>k\<close>-th GET of
  \<open>url\<close> (counted from 0), every GET being taken to end in a response;
  \<open>sleep_limit\<close> is the longest pause in seconds that \<^verbatim>\<open>time.sleep\<close> takes on the
  platform; \<open>int_max_str_digits\<close> is the interpreter's limit for \<^verbatim>\<open>int\<close>;
  \<open>parse_html\<close> is \<^verbatim>\<open>BeautifulSoup(html, "html.parser")\<close>, \<open>quote_plus\<close> is
  \<^verbatim>\<open>urllib.parse.quote_plus\<close>, and \<open>pick\<close> chooses which of the pending page futures
  of a genre completes next. \<open>read_excel\<close> and \<open>to_excel\<close> are the reader and the
  writer of pandas: from the cells of the sheet, as text, to the values of a data frame
  and back. A value of a data frame is a string or the missing value \<^verbatim>\<open>NaN\<close>.
  The state of a run is the number of GETs each URL has served, the effects so far,
  and the cells of the spreadsheet (\<open>None\<close> while the file does not exist).
\<close>

datatype node = Text string | Tag string "(string \<times> string) list" "node list"

datatype cell = Str string | NaN

record env =
  net :: "string \<Rightarrow> nat \<Rightarrow> response"
  sleep_limit :: int
  int_max_str_digits :: nat
  parse_html :: "string \<Rightarrow> node list"
  quote_plus :: "string \<Rightarrow> string"
  pick :: "string \<Rightarrow> nat list \<Rightarrow> nat"
  read_excel :: "string list list \<Rightarrow> cell list list"
  to_excel :: "cell list list \<Rightarrow> string list list"

record world =
  served :: "string \<Rightarrow> nat"
  trace :: "event list"
  excel_file :: "string list list option"

definition sleep_jitter :: "world \<Rightarrow> world" where
  "sleep_jitter w = w\<lparr>trace := trace w @ [Jitter_sleep]\<rparr>"

definition requests_get :: "env \<Rightarrow> string \<Rightarrow> world \<Rightarrow> response \<times> world" where
  "requests_get e url w =
     (net e url (served w url),
      w\<lparr>served := (served w)(url := Suc (served w url)), trace := trace w @ [Request url]\<rparr>)"

text \<open>
  \<^verbatim>\<open>time.sleep(n)\<close> raises \<^verbatim>\<open>ValueError\<close> for a negative \<open>n\<close> and fails for an
  \<open>n\<close> beyond what the platform's clock takes.
\<close>

definition time_sleep :: "env \<Rightarrow> int \<Rightarrow> world \<Rightarrow> (error + unit) \<times> world" where
  "time_sleep e n w =
     (if n < 0 then (Inl ValueError, w)
      else if sleep_limit e < n then (Inl OverflowError, w)
      else (Inr (), w\<lparr>trace := trace w @ [Sleep n]\<rparr>))"

text \<open>
  \<^verbatim>\<open>int(resp.headers.get("Retry-After", 30))\<close>: the default is the integer 30, a
  header that is present is a string and goes through \<^verbatim>\<open>int\<close>.
\<close>

definition retry_after_secs :: "env \<Rightarrow> response \<Rightarrow> error + int" where
  "retry_after_secs e resp =
     (case retry_after resp of
        None \<Rightarrow> Inr 30
      | Some s \<Rightarrow>
          (case int_of_str (int_max_str_digits e) s of
             None \<Rightarrow> Inl ValueError
           | Some n \<Rightarrow> Inr n))"

text \<open>
  The loop of \<^verbatim>\<open>fetch_url\<close>, by the number of attempts that are left. The result is
  the body (\<open>Some\<close>), Python's \<^verbatim>\<open>None\<close>, or the exception that leaves the function.
\<close>

fun fetch_loop :: "env \<Rightarrow> string \<Rightarrow> nat \<Rightarrow> world \<Rightarrow> (error + string option) \<times> world" where
  "fetch_loop e url 0 w = (Inr None, w)"
| "fetch_loop e url (Suc n) w =
     (case requests_get e url (sleep_jitter w) of (resp, w1) \<Rightarrow>
        if status_code resp = 200 then (Inr (Some (body resp)), w1)
        else if status_code resp = 429 then
          (case retry_after_secs e resp of
             Inl err \<Rightarrow> (Inl err, w1)
           | Inr secs \<Rightarrow>
               (case time_sleep e secs w1 of
                  (Inl err, w2) \<Rightarrow> (Inl err, w2)
                | (Inr u, w2) \<Rightarrow> fetch_loop e url n w2))
        else (Inr None, w1))"

definition fetch_url :: "env \<Rightarrow> string \<Rightarrow> nat \<Rightarrow> world \<Rightarrow> (error + string option) \<times> world" where
  "fetch_url e url max_retries w = fetch_loop e url max_retries w"

text \<open>The number of GETs among the effects: the attempts made.\<close>

definition attempts :: "event list \<Rightarrow> nat" where
  "attempts evs = length (filter (\<lambda>ev. case ev of Request u \<Rightarrow> True | _ \<Rightarrow> False) evs)"

text \<open>
  Fixtures: a server that answers every GET alike, and a run that has done nothing yet.
  The reader and the writer of the fixtures are pandas with its defaults on the cells
  the fixtures hold: an empty cell and the marker \<^verbatim>\<open>N/A\<close> are read as the missing
  value, any other text of theirs as it stands, and the missing value is written as an
  empty cell.
\<close>

definition read_cell :: "string \<Rightarrow> cell" where
  "read_cell s = (if s = [] \<or> s = ''N/A'' then NaN else Str s)"

definition write_cell :: "cell \<Rightarrow> string" where
  "write_cell c = (case c of Str s \<Rightarrow> s | NaN \<Rightarrow> [])"

definition answering :: "int \<Rightarrow> string \<Rightarrow> string option \<Rightarrow> env" where
  "answering code html ra =
     \<lparr>net = (\<lambda>url k. \<lparr>status_code = code, body = html, retry_after = ra\<rparr>),
      sleep_limit = 86400, int_max_str_digits = 4300, parse_html = (\<lambda>s. []),
      quote_plus = (\<lambda>s. s), pick = (\<lambda>g ps. 0),
      read_excel = map (map read_cell), to_excel = map (map write_cell)\<rparr>"

definition fresh :: world where
  "fresh = \<lparr>served = (\<lambda>u. 0), trace = [], excel_file = None\<rparr>"

subsection \<open>Throttling\<close>

text \<open>
  When every GET of the URL is answered with 429, and every \<^verbatim>\<open>Retry-After\<close> that is
  sent is an integer literal of a pause \<^verbatim>\<open>time.sleep\<close> takes, the loop runs all its
  \<open>n\<close> attempts: before each GET the jittered pause, after each GET the pause the
  server asked for (30 seconds without the header), and \<^verbatim>\<open>None\<close> at the end.
\<close>

lemma fetch_loop_throttled:
  assumes st: "\<forall>k. status_code (net e url k) = 429"
    and ra: "\<forall>k. retry_after_secs e (net e url k) = Inr (d k) \<and> 0 \<le> d k \<and> d k \<le> sleep_limit e"
  shows "fetch_loop e url n w =
           (Inr None,
            w\<lparr>served := (served w)(url := served w url + n),
              trace := trace w @
                concat (map (\<lambda>i. [Jitter_sleep, Request url, Sleep (d (served w url + i))]) [0..<n])\<rparr>)"
proof (induction n arbitrary: w)
  case 0
  show ?case by simp
next
  case (Suc n)
  let ?k = "served w url"
  let ?w2 = "w\<lparr>served := (served w)(url := Suc ?k),
                trace := trace w @ [Jitter_sleep, Request url, Sleep (d ?k)]\<rparr>"
  have step: "fetch_loop e url (Suc n) w = fetch_loop e url n ?w2"
  proof -
    have "status_code (net e url ?k) = 429" "retry_after_secs e (net e url ?k) = Inr (d ?k)"
      "\<not> d ?k < 0" "\<not> sleep_limit e < d ?k"
      using st ra by (auto simp: not_less)
    then show ?thesis
      by (simp add: requests_get_def sleep_jitter_def time_sleep_def)
  qed
  have shift: "map (\<lambda>i. [Jitter_sleep, Request url, Sleep (d (?k + i))]) [0..<Suc n] =
      [Jitter_sleep, Request url, Sleep (d ?k)] #
      map (\<lambda>i. [Jitter_sleep, Request url, Sleep (d (Suc ?k + i))]) [0..<n]"
    by (simp add: upt_conv_Cons map_Suc_upt [symmetric] del: upt_Suc)
  note step
  also note Suc.IH [of ?w2]
  also have "(Inr None,
       ?w2\<lparr>served := (served ?w2)(url := served ?w2 url + n),
         trace := trace ?w2 @
           concat (map (\<lambda>i. [Jitter_sleep, Request url, Sleep (d (served ?w2 url + i))]) [0..<n])\<rparr>) =
      (Inr None :: error + string option,
       w\<lparr>served := (served w)(url := ?k + Suc n),
         trace := trace w @
           concat (map (\<lambda>i. [Jitter_sleep, Request url, Sleep (d (?k + i))]) [0..<Suc n])\<rparr>)"
    unfolding shift by simp
  finally show ?case .
qed

lemma attempts_throttled:
  "attempts (evs @ concat (map (\<lambda>i. [Jitter_sleep, Request url, Sleep (d i)]) [0..<n])) =
     attempts evs + n"
  by (induction n) (simp_all add: attempts_def)

lemma fetch_url_throttled_default:
  "fetch_url (answering 429 [] None) url 5 fresh =
     (Inr None,
      fresh\<lparr>served := (served fresh)(url := 5),
        trace := concat (replicate 5 [Jitter_sleep, Request url, Sleep 30])\<rparr>)"
proof -
  have "fetch_loop (answering 429 [] None) url 5 fresh =
          (Inr None,
           fresh\<lparr>served := (served fresh)(url := served fresh url + 5),
             trace := trace fresh @
               concat (map (\<lambda>i. [Jitter_sleep, Request url, Sleep 30]) [0..<5])\<rparr>)"
    by (rule fetch_loop_throttled [where d = "\<lambda>k. 30"])
       (simp_all add: answering_def retry_after_secs_def)
  moreover have "map (\<lambda>i. [Jitter_sleep, Request url, Sleep 30]) [0..<5] =
      replicate 5 [Jitter_sleep, Request url, Sleep 30]"
    by (simp add: map_replicate_const)
  ultimately show ?thesis
    by (simp add: fetch_url_def fresh_def)
qed

text \<open>
  C1. On a run of 429 responses the fetcher is to pause for the time the server names,
  make all five attempts and hand back \<^verbatim>\<open>None\<close>. A \<^verbatim>\<open>Retry-After\<close> header may carry
  an HTTP date instead of a number of seconds. On such a response \<^verbatim>\<open>int(retry_after)\<close>
  raises \<^verbatim>\<open>ValueError\<close>: the run ends in the exception after one attempt, with no
  pause for the server, no retry and no \<^verbatim>\<open>None\<close>.
\<close>

theorem fetch_url_throttled_http_date:
  "fetch_url (answering 429 [] (Some ''Wed, 21 Oct 2015 07:28:00 GMT'')) ''u'' 5 fresh =
     (Inl ValueError,
      fresh\<lparr>served := (served fresh)(''u'' := 1), trace := [Jitter_sleep, Request ''u'']\<rparr>)"
  by (simp add: fetch_url_def answering_def fresh_def numeral_nat requests_get_def
      sleep_jitter_def retry_after_secs_def int_of_str_def int_space_def isdigit_def)

subsection \<open>Other failures\<close>

text \<open>
  C3. When the first response has a status other than 200 and 429, the fetcher hands
  back \<^verbatim>\<open>None\<close> after that one attempt: one jittered pause and one GET, nothing more.
\<close>

theorem fetch_url_other_status:
  assumes "status_code (net e url (served w url)) \<noteq> 200"
    and "status_code (net e url (served w url)) \<noteq> 429"
    and "0 < max_retries"
  shows "fetch_url e url max_retries w =
           (Inr None,
            w\<lparr>served := (served w)(url := Suc (served w url)),
              trace := trace w @ [Jitter_sleep, Request url]\<rparr>) \<and>
         attempts (trace (snd (fetch_url e url max_retries w))) = Suc (attempts (trace w))"
proof -
  obtain n where n: "max_retries = Suc n"
    using assms(3) by (cases max_retries) auto
  show ?thesis
    using assms(1,2) by (simp add: fetch_url_def n requests_get_def sleep_jitter_def attempts_def)
qed

theorem fetch_url_other_status_witness:
  "status_code (net (answering 404 ''Not Found'' None) ''u'' (served fresh ''u'')) \<noteq> 200 \<and>
   status_code (net (answering 404 ''Not Found'' None) ''u'' (served fresh ''u'')) \<noteq> 429 \<and>
   (0::nat) < 5 \<and>
   fetch_url (answering 404 ''Not Found'' None) ''u'' 5 fresh =
     (Inr None,
      fresh\<lparr>served := (served fresh)(''u'' := Suc (served fresh ''u'')),
        trace := trace fresh @ [Jitter_sleep, Request ''u'']\<rparr>) \<and>
   attempts (trace (snd (fetch_url (answering 404 ''Not Found'' None) ''u'' 5 fresh))) =
     Suc (attempts (trace fresh))"
proof -
  have a: "status_code (net (answering 404 ''Not Found'' None) ''u'' (served fresh ''u'')) \<noteq> 200"
    and b: "status_code (net (answering 404 ''Not Found'' None) ''u'' (served fresh ''u'')) \<noteq> 429"
    by (simp_all add: answering_def)
  have c: "(0::nat) < 5" by simp
  show ?thesis
    using a b c fetch_url_other_status [OF a b c] by (simp add: attempts_def)
qed

subsection \<open>Exceptions that leave the fetcher\<close>

text \<open>
  C4. The fetcher is to hand back \<^verbatim>\<open>None\<close> on every failure and let no exception out.
  A 429 whose \<^verbatim>\<open>Retry-After\<close> is not an integer literal makes \<^verbatim>\<open>int(retry_after)\<close>
  raise \<^verbatim>\<open>ValueError\<close>, and nothing in \<^verbatim>\<open>fetch_url\<close> catches it.
\<close>

theorem fetch_url_raises_value_error:
  "fst (fetch_url (answering 429 [] (Some ''soon'')) ''u'' 5 fresh) = Inl ValueError"
  by (simp add: fetch_url_def answering_def fresh_def numeral_nat requests_get_def
      sleep_jitter_def retry_after_secs_def int_of_str_def int_space_def isdigit_def)

text \<open>A negative number of seconds gets through \<^verbatim>\<open>int\<close> and fails in \<^verbatim>\<open>time.sleep\<close>.\<close>

lemma fetch_url_raises_on_negative_pause:
  "fst (fetch_url (answering 429 [] (Some ''-1'')) ''u'' 5 fresh) = Inl ValueError"
  by (simp add: fetch_url_def answering_def fresh_def numeral_nat requests_get_def
      sleep_jitter_def retry_after_secs_def time_sleep_def int_of_str_def int_space_def
      isdigit_def digit_val_def)

section \<open>The parsed document\<close>

text \<open>
  A parsed page is a forest of \<open>node\<close>s: text, or a tag with its attributes and its
  children. \<open>descends up ks\<close> lists the nodes of the forest \<open>ks\<close> in document order,
  each with its ancestors (the nearest first, \<open>up\<close> being those of the forest itself):
  the order in which \<^verbatim>\<open>find\<close> and \<^verbatim>\<open>find_all\<close> look at them.
\<close>

fun descend :: "node list \<Rightarrow> node \<Rightarrow> (node \<times> node list) list"
  and descends :: "node list \<Rightarrow> node list \<Rightarrow> (node \<times> node list) list" where
  "descend up (Text s) = [(Text s, up)]"
| "descend up (Tag name attrs kids) =
     (Tag name attrs kids, up) # descends (Tag name attrs kids # up) kids"
| "descends up [] = []"
| "descends up (k # ks) = descend up k @ descends up ks"

definition descendants :: "node \<Rightarrow> node list" where
  "descendants x = (case x of Text s \<Rightarrow> [] | Tag name attrs kids \<Rightarrow> map fst (descends [x] kids))"

definition is_tag :: "string \<Rightarrow> node \<Rightarrow> bool" where
  "is_tag name x = (case x of Text s \<Rightarrow> False | Tag n attrs kids \<Rightarrow> n = name)"

text \<open>\<^verbatim>\<open>tag.get(key)\<close>: the attribute, or \<^verbatim>\<open>None\<close>.\<close>

definition attr_get :: "node \<Rightarrow> string \<Rightarrow> string option" where
  "attr_get x key = (case x of Text s \<Rightarrow> None | Tag n attrs kids \<Rightarrow> map_of attrs key)"

text \<open>\<^verbatim>\<open>tag.find_all(name)\<close> and \<^verbatim>\<open>tag.find(...)\<close> over the descendants of a tag.\<close>

definition find_all :: "string \<Rightarrow> node \<Rightarrow> node list" where
  "find_all name x = filter (is_tag name) (descendants x)"

definition find_first :: "(node \<Rightarrow> bool) \<Rightarrow> node \<Rightarrow> node option" where
  "find_first P x = List.find P (descendants x)"

text \<open>
  The \<^verbatim>\<open>.string\<close> of a node: a text is its own string, a tag with exactly one child
  has the string of that child, any other tag has none.
\<close>

fun tag_string :: "node \<Rightarrow> string option" where
  "tag_string (Text s) = Some s"
| "tag_string (Tag name attrs [k]) = tag_string k"
| "tag_string (Tag name attrs ks) = None"

text \<open>
  \<^verbatim>\<open>tag.get_text(strip=True)\<close>: the texts below the tag in document order, each one
  stripped, joined without a separator.
\<close>

fun strings :: "node \<Rightarrow> string list" where
  "strings (Text s) = [s]"
| "strings (Tag name attrs kids) = concat (map strings kids)"

definition get_text_strip :: "node \<Rightarrow> string" where
  "get_text_strip x = concat (map strip (strings x))"

section \<open>Genre discovery\<close>

definition genre_select :: "node \<Rightarrow> bool" where
  "genre_select x \<longleftrightarrow> is_tag ''select'' x \<and> attr_get x ''name'' = Some ''genre''"

definition option_value :: "node \<Rightarrow> string" where
  "option_value opt = strip (case attr_get opt ''value'' of None \<Rightarrow> [] | Some v \<Rightarrow> v)"

definition genres_of_soup :: "node list \<Rightarrow> string list" where
  "genres_of_soup soup =
     (case List.find genre_select (map fst (descends [] soup)) of
        None \<Rightarrow> []
      | Some select \<Rightarrow> filter (\<lambda>v. v \<noteq> []) (map option_value (find_all ''option'' select)))"

text \<open>
  A page is read only when \<^verbatim>\<open>fetch_url\<close> handed back a non-empty string
  (\<^verbatim>\<open>if html:\<close>); an exception of the fetcher passes through.
\<close>

definition get_genres :: "env \<Rightarrow> world \<Rightarrow> (error + string list) \<times> world" where
  "get_genres e w =
     (case fetch_url e ''https://www.vgchartz.com/games/games.php'' 5 w of
        (Inl err, w1) \<Rightarrow> (Inl err, w1)
      | (Inr None, w1) \<Rightarrow> (Inr [], w1)
      | (Inr (Some html), w1) \<Rightarrow>
          (Inr (if html = [] then [] else genres_of_soup (parse_html e html)), w1))"

section \<open>Count discovery\<close>

definition RESULTS_PER_PAGE :: nat where
  "RESULTS_PER_PAGE = 200"

text \<open>The listing URL of a genre, without the \<^verbatim>\<open>&page=\<close> parameter.\<close>

definition base_url :: "env \<Rightarrow> string \<Rightarrow> string" where
  "base_url e genre =
     ''https://www.vgchartz.com/games/games.php?'' @
     ''name=&keyword=&console=&region=All&developer=&publisher=&goty_year=&genre='' @
     quote_plus e genre @
     ''&boxart=Both&banner=Both&ownership=Both&showmultiplat=No&results='' @
     str_nat RESULTS_PER_PAGE @
     ''&order=Popular'' @
     ''&showtotalsales=0&showtotalsales=1&showpublisher=0&showpublisher=1&showvgchartzscore=0'' @
     ''&shownasales=0&showdeveloper=0&showcriticscore=0&showpalsales=0&showreleasedate=0'' @
     ''&showreleasedate=1&showuserscore=0&showjapansales=0&showlastupdate=0&showlastupdate=1'' @
     ''&showothersales=0&showshipped=0&showshipped=1''"

text \<open>
  The pattern \<^verbatim>\<open>Results:\s*\(([\d,]+)\)\<close>. No choice is left to the matcher at a
  given start: the whitespace run and the run of digits and commas are each followed
  by a character outside their class, so only the longest run can match.
  \<open>match_results s\<close> matches at the start of \<open>s\<close> and gives group 1;
  \<open>search_results\<close> is \<^verbatim>\<open>re.search\<close>, the match at the leftmost start.
\<close>

definition digit_or_comma :: "char \<Rightarrow> bool" where
  "digit_or_comma c \<longleftrightarrow> isdigit c \<or> c = CHR '',''"

definition match_results :: "string \<Rightarrow> string option" where
  "match_results s =
     (if take 8 s = ''Results:'' then
        (case dropWhile isspace (drop 8 s) of
           [] \<Rightarrow> None
         | c # r \<Rightarrow>
             if c = CHR ''('' \<and> takeWhile digit_or_comma r \<noteq> [] \<and>
                take 1 (dropWhile digit_or_comma r) = '')''
             then Some (takeWhile digit_or_comma r) else None)
      else None)"

fun search_results :: "string \<Rightarrow> string option" where
  "search_results [] = None"
| "search_results (c # cs) =
     (case match_results (c # cs) of Some g \<Rightarrow> Some g | None \<Rightarrow> search_results cs)"

text \<open>
  \<^verbatim>\<open>soup.find("th", text=re.compile(...))\<close>: the first \<^verbatim>\<open>th\<close> whose \<^verbatim>\<open>.string\<close>
  exists and is matched somewhere by the pattern.
\<close>

definition results_th :: "node \<Rightarrow> bool" where
  "results_th x \<longleftrightarrow>
     is_tag ''th'' x \<and>
     (case tag_string x of None \<Rightarrow> False | Some t \<Rightarrow> search_results t \<noteq> None)"

definition total_of_soup :: "nat \<Rightarrow> node list \<Rightarrow> int option" where
  "total_of_soup max_digits soup =
     (case List.find results_th (map fst (descends [] soup)) of
        None \<Rightarrow> None
      | Some th \<Rightarrow>
          (case search_results (get_text_strip th) of
             None \<Rightarrow> None
           | Some g \<Rightarrow> int_of_str max_digits (filter (\<lambda>c. c \<noteq> CHR '','') g)))"

definition get_total_results :: "env \<Rightarrow> string \<Rightarrow> world \<Rightarrow> (error + int option) \<times> world" where
  "get_total_results e genre w =
     (case fetch_url e (base_url e genre @ ''&page=1'') 5 w of
        (Inl err, w1) \<Rightarrow> (Inl err, w1)
      | (Inr None, w1) \<Rightarrow> (Inr None, w1)
      | (Inr (Some html), w1) \<Rightarrow>
          (Inr (if html = [] then None
                else total_of_soup (int_max_str_digits e) (parse_html e html)), w1))"

section \<open>The page scraper\<close>

text \<open>
  \<^verbatim>\<open>soup.find("th", string=lambda text: text and "Pos" in text)\<close> and
  \<^verbatim>\<open>cell.find("img", alt=lambda x: x and x != "Boxart Missing")\<close>: a missing or empty
  string is falsy.
\<close>

definition pos_header :: "node \<Rightarrow> bool" where
  "pos_header x \<longleftrightarrow>
     is_tag ''th'' x \<and>
     (case tag_string x of None \<Rightarrow> False | Some t \<Rightarrow> t \<noteq> [] \<and> contains ''Pos'' t)"

definition console_img :: "node \<Rightarrow> bool" where
  "console_img x \<longleftrightarrow>
     is_tag ''img'' x \<and>
     (case attr_get x ''alt'' of None \<Rightarrow> False | Some a \<Rightarrow> a \<noteq> [] \<and> a \<noteq> ''Boxart Missing'')"

text \<open>
  The loop over the cell indices 2 and 3. The first cell with such an image ends the
  loop (\<^verbatim>\<open>break\<close>) with the stripped \<^verbatim>\<open>alt\<close> text, whatever it is; \<open>None\<close> is the
  \<^verbatim>\<open>console = None\<close> the loop started from.
\<close>

fun console_loop :: "node list \<Rightarrow> nat list \<Rightarrow> string option" where
  "console_loop cells [] = None"
| "console_loop cells (c_idx # rest) =
     (if c_idx < length cells then
        (case find_first console_img (cells ! c_idx) of
           Some img \<Rightarrow> Some (strip (case attr_get img ''alt'' of None \<Rightarrow> [] | Some a \<Rightarrow> a))
         | None \<Rightarrow> console_loop cells rest)
      else console_loop cells rest)"

text \<open>
  One pass of the loop over the table rows: no record for a row with fewer than nine
  cells (\<^verbatim>\<open>continue\<close>), else the one record of eight strings that is appended.
\<close>

definition scrape_row :: "string \<Rightarrow> node \<Rightarrow> string list list" where
  "scrape_row genre row =
     (let cells = find_all ''td'' row in
      if length cells < 9 then []
      else
        let game_text = get_text_strip (cells ! 2);
            game_name = strip (remove_all ''Read the review'' game_text);
            console = (case console_loop cells [2, 3] of
                         None \<Rightarrow> ''Unknown''
                       | Some c \<Rightarrow> if c = [] then ''Unknown'' else c);
            publisher = get_text_strip (cells ! 4);
            total_shipped = get_text_strip (cells ! 5);
            total_sales = get_text_strip (cells ! 6);
            release_date = get_text_strip (cells ! 7);
            last_update = get_text_strip (cells ! 8)
        in [[console, game_name, publisher, total_shipped, total_sales, release_date,
             last_update, genre]])"

definition scrape_rows :: "string \<Rightarrow> node list \<Rightarrow> string list list" where
  "scrape_rows genre table_rows = concat (map (scrape_row genre) table_rows)"

text \<open>
  The table is the nearest \<^verbatim>\<open>table\<close> above the first header cell with \<^verbatim>\<open>Pos\<close>; its
  first \<^verbatim>\<open>tr\<close> is skipped (\<^verbatim>\<open>table_rows[1:]\<close>).
\<close>

definition scrape_soup :: "string \<Rightarrow> node list \<Rightarrow> string list list" where
  "scrape_soup genre soup =
     (case List.find (\<lambda>(x, up). pos_header x) (descends [] soup) of
        None \<Rightarrow> []
      | Some (header_th, up) \<Rightarrow>
          (case List.find (is_tag ''table'') up of
             None \<Rightarrow> []
           | Some data_table \<Rightarrow> scrape_rows genre (tl (find_all ''tr'' data_table))))"

definition scrape_page :: "env \<Rightarrow> string \<Rightarrow> string \<Rightarrow> world \<Rightarrow> (error + string list list) \<times> world" where
  "scrape_page e url genre w =
     (case fetch_url e url 5 w of
        (Inl err, w1) \<Rightarrow> (Inl err, w1)
      | (Inr None, w1) \<Rightarrow> (Inr [], w1)
      | (Inr (Some html), w1) \<Rightarrow>
          (Inr (if html = [] then [] else scrape_soup genre (parse_html e html)), w1))"

subsection \<open>What a row yields\<close>

text \<open>
  The image the console is read from: the first image with a usable \<^verbatim>\<open>alt\<close> in
  cell 2, else the first one in cell 3.
\<close>

definition alt_text :: "node \<Rightarrow> string" where
  "alt_text i = (case attr_get i ''alt'' of None \<Rightarrow> [] | Some a \<Rightarrow> a)"

definition first_console_img :: "node list \<Rightarrow> node option" where
  "first_console_img cells =
     (case find_first console_img (cells ! 2) of
        Some i \<Rightarrow> Some i
      | None \<Rightarrow> find_first console_img (cells ! 3))"

text \<open>
  The two fields as the specification words them: the game is the text of the name cell
  without the suffix \<^verbatim>\<open>Read the review\<close> (trimmed, as its example has it), the console
  is the \<^verbatim>\<open>alt\<close> text of that first image, or \<^verbatim>\<open>Unknown\<close> when there is none.
\<close>

definition strip_suffix :: "string \<Rightarrow> string \<Rightarrow> string" where
  "strip_suffix suf s =
     (if length suf \<le> length s \<and> drop (length s - length suf) s = suf
      then take (length s - length suf) s else s)"

definition claimed_game :: "string \<Rightarrow> string" where
  "claimed_game name_text = strip (strip_suffix ''Read the review'' name_text)"

definition claimed_console :: "node list \<Rightarrow> string" where
  "claimed_console cells =
     (case first_console_img cells of None \<Rightarrow> ''Unknown'' | Some i \<Rightarrow> alt_text i)"

text \<open>Fixtures: table rows, a results page around them, and a server that serves it.\<close>

definition td :: "node list \<Rightarrow> node" where
  "td kids = Tag ''td'' [] kids"

definition img :: "string \<Rightarrow> node" where
  "img a = Tag ''img'' [(''src'', ''/images/box.png''), (''alt'', a)] []"

definition game_row :: "node \<Rightarrow> node \<Rightarrow> node" where
  "game_row c2 c3 = Tag ''tr'' []
     [td [Text ''1''], td [img ''Boxart Missing''], c2, c3, td [Text ''Nintendo''],
      td [Text ''N/A''], td [Text ''82.90m''], td [Text ''19th Nov 06''],
      td [Text ''02nd Apr 20'']]"

definition short_row :: node where
  "short_row = Tag ''tr'' [] [td [Text ''advertisement''], td []]"

definition super_row :: node where
  "super_row = game_row (td [Tag ''a'' [] [Text ''Super Game Read the review'']]) (td [])"

definition reviewers_row :: node where
  "reviewers_row = game_row (td [Tag ''a'' [] [Text ''Read the reviewers''], img ''PS4 '']) (td [])"

definition blank_alt_row :: node where
  "blank_alt_row = game_row (td [Tag ''a'' [] [Text ''Wii Sports''], img '' '']) (td [img ''Wii''])"

definition results_page :: "string \<Rightarrow> node list \<Rightarrow> node list" where
  "results_page label table_rows =
     [Tag ''html'' []
        [Tag ''body'' []
           [Tag ''table'' [] [Tag ''tr'' [] [Tag ''th'' [(''colspan'', ''3'')] [Text label]]],
            Tag ''div'' [(''id'', ''generalBody'')]
              [Tag ''table'' []
                 (Tag ''tr'' [] [Tag ''th'' [] [Text ''Pos''], Tag ''th'' [] [Text ''Game'']] #
                  table_rows)]]]]"

definition serving :: "node list \<Rightarrow> env" where
  "serving doc =
     \<lparr>net = (\<lambda>url k. \<lparr>status_code = 200, body = ''<html>'', retry_after = None\<rparr>),
      sleep_limit = 86400, int_max_str_digits = 4300, parse_html = (\<lambda>s. doc),
      quote_plus = (\<lambda>s. s), pick = (\<lambda>g ps. 0),
      read_excel = map (map read_cell), to_excel = map (map write_cell)\<rparr>"

lemma console_loop_first:
  assumes "4 \<le> length cells"
  shows "console_loop cells [2, 3] =
           map_option (\<lambda>i. strip (alt_text i)) (first_console_img cells)"
  using assms by (simp add: first_console_img_def alt_text_def split: option.splits)

lemma scrape_row_record:
  assumes "9 \<le> length (find_all ''td'' row)"
  shows "scrape_row genre row =
      [[case first_console_img (find_all ''td'' row) of
          None \<Rightarrow> ''Unknown''
        | Some i \<Rightarrow> if strip (alt_text i) = [] then ''Unknown'' else strip (alt_text i),
        strip (remove_all ''Read the review'' (get_text_strip (find_all ''td'' row ! 2))),
        get_text_strip (find_all ''td'' row ! 4), get_text_strip (find_all ''td'' row ! 5),
        get_text_strip (find_all ''td'' row ! 6), get_text_strip (find_all ''td'' row ! 7),
        get_text_strip (find_all ''td'' row ! 8), genre]]"
proof -
  have "4 \<le> length (find_all ''td'' row)"
    using assms by simp
  note cl = console_loop_first [OF this]
  show ?thesis
    using assms unfolding scrape_row_def Let_def cl
    by (simp add: not_less [symmetric] split: option.splits)
qed

lemma scrape_row_short:
  "length (find_all ''td'' row) < 9 \<Longrightarrow> scrape_row genre row = []"
  by (simp add: scrape_row_def)

lemma scrape_row_console:
  assumes "r \<in> set (scrape_row genre row)"
  shows "length r = 8 \<and> hd r \<noteq> []"
proof (cases "length (find_all ''td'' row) < 9")
  case True
  with assms show ?thesis by (simp add: scrape_row_short)
next
  case False
  then have "9 \<le> length (find_all ''td'' row)" by simp
  from scrape_row_record [OF this, of genre] assms show ?thesis
    by (auto split: option.splits)
qed

lemma scrape_rows_console:
  "r \<in> set (scrape_rows genre table_rows) \<Longrightarrow> length r = 8 \<and> hd r \<noteq> []"
  unfolding scrape_rows_def using scrape_row_console by auto

lemma scrape_soup_console:
  "r \<in> set (scrape_soup genre soup) \<Longrightarrow> length r = 8 \<and> hd r \<noteq> []"
  unfolding scrape_soup_def using scrape_rows_console
  by (auto split: option.splits prod.splits)

lemma scrape_page_rows:
  assumes "fst (scrape_page e url genre w) = Inr found"
  shows "found = [] \<or> (\<exists>html. found = scrape_soup genre (parse_html e html))"
  using assms unfolding scrape_page_def
  by (auto split: prod.splits sum.splits option.splits if_splits)

text \<open>
  C7. The specification has the game as the text of the name cell with the suffix
  \<^verbatim>\<open>Read the review\<close> stripped, and the console as the \<^verbatim>\<open>alt\<close> text of the first
  matching image, \<^verbatim>\<open>Unknown\<close> when none matches. The code removes the phrase wherever
  it stands in the text, not only at the end; it trims the \<^verbatim>\<open>alt\<close> text; and it puts
  \<^verbatim>\<open>Unknown\<close> also where the image matched and its \<^verbatim>\<open>alt\<close> text is blank. The rows
  \<open>reviewers_row\<close> and \<open>blank_alt_row\<close> show the three differences.
\<close>

theorem scrape_row_not_as_worded:
  "take 2 (hd (scrape_row ''Action'' reviewers_row)) = [''PS4'', ''ers''] \<and>
   claimed_game (get_text_strip (find_all ''td'' reviewers_row ! 2)) = ''Read the reviewers'' \<and>
   claimed_console (find_all ''td'' reviewers_row) = ''PS4 '' \<and>
   hd (hd (scrape_row ''Action'' blank_alt_row)) = ''Unknown'' \<and>
   claimed_console (find_all ''td'' blank_alt_row) = '' ''"
  by code_simp

text \<open>
  C7, as the code has it. A row with at least nine cells yields one record. Its game is
  the text of cell 2 with every occurrence of \<^verbatim>\<open>Read the review\<close> removed, trimmed. Its
  console is the trimmed \<^verbatim>\<open>alt\<close> text of the first matching image of cells 2 and 3,
  and \<^verbatim>\<open>Unknown\<close> when no image matches or that text is empty. The other fields are
  the texts of cells 4 to 8 and the genre passed in. In particular the name cell
  \<^verbatim>\<open>Super Game Read the review\<close> without a matching image gives the game
  \<^verbatim>\<open>Super Game\<close> and the console \<^verbatim>\<open>Unknown\<close>.
\<close>

theorem scrape_row_fields:
  assumes "9 \<le> length (find_all ''td'' row)"
  shows "scrape_row genre row =
      [[case first_console_img (find_all ''td'' row) of
          None \<Rightarrow> ''Unknown''
        | Some i \<Rightarrow> if strip (alt_text i) = [] then ''Unknown'' else strip (alt_text i),
        strip (remove_all ''Read the review'' (get_text_strip (find_all ''td'' row ! 2))),
        get_text_strip (find_all ''td'' row ! 4), get_text_strip (find_all ''td'' row ! 5),
        get_text_strip (find_all ''td'' row ! 6), get_text_strip (find_all ''td'' row ! 7),
        get_text_strip (find_all ''td'' row ! 8), genre]] \<and>
     (get_text_strip (find_all ''td'' row ! 2) = ''Super Game Read the review'' \<and>
      first_console_img (find_all ''td'' row) = None \<longrightarrow>
      take 2 (hd (scrape_row genre row)) = [''Unknown'', ''Super Game''])"
proof -
  have sg: "strip ''Super Game '' = ''Super Game''"
    by (simp add: strip_def isspace_def)
  show ?thesis
    unfolding scrape_row_record [OF assms] by (simp add: sg)
qed

theorem scrape_row_fields_witness:
  "9 \<le> length (find_all ''td'' super_row) \<and>
   get_text_strip (find_all ''td'' super_row ! 2) = ''Super Game Read the review'' \<and>
   first_console_img (find_all ''td'' super_row) = None \<and>
   take 2 (hd (scrape_row ''Sports'' super_row)) = [''Unknown'', ''Super Game'']"
proof -
  have a: "9 \<le> length (find_all ''td'' super_row)"
    by code_simp
  have b: "get_text_strip (find_all ''td'' super_row ! 2) = ''Super Game Read the review''"
    by code_simp
  have c: "first_console_img (find_all ''td'' super_row) = None"
    by code_simp
  from scrape_row_fields [OF a, of "''Sports''"] b c
  have "take 2 (hd (scrape_row ''Sports'' super_row)) = [''Unknown'', ''Super Game'']"
    by blast
  with a b c show ?thesis by blast
qed

text \<open>
  A row with fewer than nine cells yields no record and the loop goes on with the rows
  behind it; nothing in the loop can raise, as every cell it indexes exists. When the
  fetcher hands back \<^verbatim>\<open>None\<close>, or the page has no header cell with \<^verbatim>\<open>Pos\<close>, or
  that cell stands in no table, the scraper returns the empty list.
\<close>

lemma scrape_page_degrades:
  "(length (find_all ''td'' row) < 9 \<longrightarrow>
      scrape_row genre row = [] \<and>
      scrape_rows genre (before @ row # after) =
        scrape_rows genre before @ scrape_rows genre after) \<and>
   (fst (fetch_url e url 5 w) = Inr None \<longrightarrow>
      scrape_page e url genre w = (Inr [], snd (fetch_url e url 5 w))) \<and>
   (fst (fetch_url e url 5 w) = Inr (Some html) \<and>
    List.find (\<lambda>(x, up). pos_header x) (descends [] (parse_html e html)) = None \<longrightarrow>
      scrape_page e url genre w = (Inr [], snd (fetch_url e url 5 w))) \<and>
   (fst (fetch_url e url 5 w) = Inr (Some html) \<and>
    List.find (\<lambda>(x, up). pos_header x) (descends [] (parse_html e html)) = Some (th, up) \<and>
    List.find (is_tag ''table'') up = None \<longrightarrow>
      scrape_page e url genre w = (Inr [], snd (fetch_url e url 5 w)))"
proof (intro conjI impI)
  assume "length (find_all ''td'' row) < 9"
  then show "scrape_row genre row = []"
    by (rule scrape_row_short)
  then show "scrape_rows genre (before @ row # after) =
      scrape_rows genre before @ scrape_rows genre after"
    by (simp add: scrape_rows_def)
next
  assume "fst (fetch_url e url 5 w) = Inr None"
  then show "scrape_page e url genre w = (Inr [], snd (fetch_url e url 5 w))"
    by (cases "fetch_url e url 5 w") (simp add: scrape_page_def)
next
  assume "fst (fetch_url e url 5 w) = Inr (Some html) \<and>
    List.find (\<lambda>(x, up). pos_header x) (descends [] (parse_html e html)) = None"
  then show "scrape_page e url genre w = (Inr [], snd (fetch_url e url 5 w))"
    by (cases "fetch_url e url 5 w") (simp add: scrape_page_def scrape_soup_def)
next
  assume "fst (fetch_url e url 5 w) = Inr (Some html) \<and>
    List.find (\<lambda>(x, up). pos_header x) (descends [] (parse_html e html)) = Some (th, up) \<and>
    List.find (is_tag ''table'') up = None"
  then show "scrape_page e url genre w = (Inr [], snd (fetch_url e url 5 w))"
    by (cases "fetch_url e url 5 w") (simp add: scrape_page_def scrape_soup_def)
qed

lemma scrape_page_degrades_example:
  "length (find_all ''td'' short_row) < 9 \<and>
   scrape_row ''Action'' short_row = [] \<and>
   scrape_rows ''Action'' ([super_row] @ short_row # [blank_alt_row]) =
     scrape_rows ''Action'' [super_row] @ scrape_rows ''Action'' [blank_alt_row] \<and>
   fst (fetch_url (answering 503 ''busy'' None) ''u'' 5 fresh) = Inr None \<and>
   fst (scrape_page (answering 503 ''busy'' None) ''u'' ''Action'' fresh) = Inr [] \<and>
   fst (fetch_url (serving [Tag ''p'' [] [Text ''Position'']]) ''u'' 5 fresh) = Inr (Some ''<html>'') \<and>
   List.find (\<lambda>(x, up). pos_header x)
     (descends [] (parse_html (serving [Tag ''p'' [] [Text ''Position'']]) ''<html>'')) = None \<and>
   fst (scrape_page (serving [Tag ''p'' [] [Text ''Position'']]) ''u'' ''Action'' fresh) = Inr []"
proof -
  let ?e1 = "answering 503 ''busy'' None" and ?e2 = "serving [Tag ''p'' [] [Text ''Position'']]"
  have a: "length (find_all ''td'' short_row) < 9"
    by code_simp
  have b: "fst (fetch_url ?e1 ''u'' 5 fresh) = Inr None"
    by code_simp
  have c: "fst (fetch_url ?e2 ''u'' 5 fresh) = Inr (Some ''<html>'')"
    by code_simp
  have d: "List.find (\<lambda>(x, up). pos_header x) (descends [] (parse_html ?e2 ''<html>'')) = None"
    by code_simp
  note t1 = scrape_page_degrades [of short_row "''Action''" "[super_row]" "[blank_alt_row]"
      ?e1 "''u''" fresh]
  note t2 = scrape_page_degrades [of short_row "''Action''" "[super_row]" "[blank_alt_row]"
      ?e2 "''u''" fresh "''<html>''"]
  from t1 a have r1: "scrape_row ''Action'' short_row = []"
    and r2: "scrape_rows ''Action'' ([super_row] @ short_row # [blank_alt_row]) =
      scrape_rows ''Action'' [super_row] @ scrape_rows ''Action'' [blank_alt_row]"
    by blast+
  from t1 b have "scrape_page ?e1 ''u'' ''Action'' fresh = (Inr [], snd (fetch_url ?e1 ''u'' 5 fresh))"
    by blast
  then have r3: "fst (scrape_page ?e1 ''u'' ''Action'' fresh) = Inr []"
    by simp
  from t2 c d have "scrape_page ?e2 ''u'' ''Action'' fresh = (Inr [], snd (fetch_url ?e2 ''u'' 5 fresh))"
    by blast
  then have r4: "fst (scrape_page ?e2 ''u'' ''Action'' fresh) = Inr []"
    by simp
  from a b c d r1 r2 r3 r4 show ?thesis by blast
qed

text \<open>
  C8. The scraper is to return the empty list whenever the fetch fails, and not to fail
  its caller. It calls \<^verbatim>\<open>fetch_url\<close> outside any \<^verbatim>\<open>try\<close>. On a 429 whose
  \<^verbatim>\<open>Retry-After\<close> is not an integer literal the fetcher raises \<^verbatim>\<open>ValueError\<close> (C4),
  and the exception leaves the scraper in place of the empty list.
\<close>

theorem scrape_page_raises:
  "fst (scrape_page (answering 429 [] (Some ''1.5'')) ''u'' ''Action'' fresh) = Inl ValueError"
  by code_simp

text \<open>
  C10. Every record the scraper returns has eight fields and a console that is not the
  empty string: where the image that matched first has an \<^verbatim>\<open>alt\<close> text that is blank
  once trimmed, the console is \<^verbatim>\<open>Unknown\<close>.
\<close>

theorem scrape_page_console_nonempty:
  "(fst (scrape_page e url genre w) = Inr found \<longrightarrow>
      (\<forall>r \<in> set found. length r = 8 \<and> hd r \<noteq> [])) \<and>
   (9 \<le> length (find_all ''td'' row) \<and>
    first_console_img (find_all ''td'' row) = Some i \<and> strip (alt_text i) = [] \<longrightarrow>
      hd (hd (scrape_row genre row)) = ''Unknown'')"
proof -
  have "length r = 8 \<and> hd r \<noteq> []"
    if "fst (scrape_page e url genre w) = Inr found" and "r \<in> set found" for r
    using that scrape_page_rows [of e url genre w found] scrape_soup_console [of r genre]
    by auto
  moreover have "hd (hd (scrape_row genre row)) = ''Unknown''"
    if "9 \<le> length (find_all ''td'' row) \<and>
      first_console_img (find_all ''td'' row) = Some i \<and> strip (alt_text i) = []"
    using that by (simp add: scrape_row_record)
  ultimately show ?thesis by blast
qed

theorem scrape_page_console_nonempty_witness:
  "fst (scrape_page (serving (results_page ''Results: (1)'' [blank_alt_row])) ''u'' ''Sports'' fresh) =
     Inr [[''Unknown'', ''Wii Sports'', ''Nintendo'', ''N/A'', ''82.90m'', ''19th Nov 06'',
           ''02nd Apr 20'', ''Sports'']] \<and>
   hd [''Unknown'', ''Wii Sports'', ''Nintendo'', ''N/A'', ''82.90m'', ''19th Nov 06'',
       ''02nd Apr 20'', ''Sports''] \<noteq> [] \<and>
   9 \<le> length (find_all ''td'' blank_alt_row) \<and>
   first_console_img (find_all ''td'' blank_alt_row) = Some (img '' '') \<and>
   strip (alt_text (img '' '')) = [] \<and>
   hd (hd (scrape_row ''Sports'' blank_alt_row)) = ''Unknown''"
proof -
  let ?e = "serving (results_page ''Results: (1)'' [blank_alt_row])"
  let ?r = "[''Unknown'', ''Wii Sports'', ''Nintendo'', ''N/A'', ''82.90m'', ''19th Nov 06'',
       ''02nd Apr 20'', ''Sports'']"
  have a: "fst (scrape_page ?e ''u'' ''Sports'' fresh) = Inr [?r]"
    by code_simp
  have b: "9 \<le> length (find_all ''td'' blank_alt_row)"
    by code_simp
  have c: "first_console_img (find_all ''td'' blank_alt_row) = Some (img '' '')"
    by code_simp
  have d: "strip (alt_text (img '' '')) = []"
    by code_simp
  note t = scrape_page_console_nonempty [of ?e "''u''" "''Sports''" fresh "[?r]" blank_alt_row
      "img '' ''"]
  from t a have "\<forall>r \<in> set [?r]. length r = 8 \<and> hd r \<noteq> []"
    by blast
  then have r1: "hd ?r \<noteq> []"
    by simp
  from t b c d have r2: "hd (hd (scrape_row ''Sports'' blank_alt_row)) = ''Unknown''"
    by blast
  from a b c d r1 r2 show ?thesis by blast
qed

section \<open>Count discovery: what the label yields\<close>

text \<open>The number a string of decimal digits denotes.\<close>

definition decimal :: "string \<Rightarrow> int" where
  "decimal ds = foldl (\<lambda>a c. 10 * a + digit_val c) 0 ds"

text \<open>Fixture: a page whose header cell holds the label and a line break behind it.\<close>

definition label_with_break :: "node list" where
  "label_with_break =
     [Tag ''table'' []
        [Tag ''tr'' [] [Tag ''th'' [] [Text ''Results: (7)'', Tag ''br'' [] []]]]]"

lemma parse_digits_digits:
  assumes "\<forall>c \<in> set ds. isdigit c" and "ds \<noteq> [] \<or> prev"
  shows "parse_digits prev acc ds = Some (foldl (\<lambda>a c. 10 * a + digit_val c) acc ds)"
  using assms by (induction ds arbitrary: prev acc) auto

lemma isdigit_not_sign:
  "isdigit c \<Longrightarrow> \<not> int_space c \<and> c \<noteq> CHR ''+'' \<and> c \<noteq> CHR ''-''"
  by (auto simp: isdigit_def int_space_def)

lemma dropWhile_head: "ys \<noteq> [] \<Longrightarrow> \<not> P (hd ys) \<Longrightarrow> dropWhile P ys = ys"
  by (cases ys) auto

lemma int_of_str_digits:
  assumes "ds \<noteq> []" and "\<forall>c \<in> set ds. isdigit c"
    and "max_digits = 0 \<or> length ds \<le> max_digits"
  shows "int_of_str max_digits ds = Some (decimal ds)"
proof -
  obtain c cs where ds: "ds = c # cs"
    using assms(1) by (cases ds) auto
  have "isdigit (hd ds)" "isdigit (last ds)"
    using assms by (simp_all add: ds)
  then have "dropWhile int_space ds = ds" "dropWhile int_space (rev ds) = rev ds"
    using assms(1) by (simp_all add: dropWhile_head isdigit_not_sign hd_rev)
  then have "rev (dropWhile int_space (rev (dropWhile int_space ds))) = c # cs"
    by (simp add: ds)
  moreover have "isdigit c"
    using assms(2) by (simp add: ds)
  moreover have "parse_digits False 0 (c # cs) = Some (decimal (c # cs))"
    unfolding decimal_def using assms(2) by (intro parse_digits_digits) (simp_all add: ds)
  moreover have "filter isdigit ds = ds"
    using assms(2) by simp
  then have "\<not> (0 < max_digits \<and> max_digits < length (filter isdigit ds))"
    using assms(3) by auto
  ultimately show ?thesis
    unfolding int_of_str_def by (simp add: isdigit_not_sign ds)
qed

lemma int_of_str_too_long:
  "0 < max_digits \<Longrightarrow> max_digits < length (filter isdigit s) \<Longrightarrow> int_of_str max_digits s = None"
  by (simp add: int_of_str_def)

lemma tag_string_strings: "tag_string x = Some s \<Longrightarrow> strings x = [s]"
  by (induction x rule: tag_string.induct) simp_all

lemma search_results_label:
  assumes "g \<noteq> []" and "\<forall>c \<in> set g. digit_or_comma c"
  shows "search_results (''Results: ('' @ g @ '')'') = Some g"
proof -
  have cl: "\<not> digit_or_comma (CHR '')'')"
    by (simp add: digit_or_comma_def isdigit_def)
  have "takeWhile digit_or_comma (g @ '')'') = g" "dropWhile digit_or_comma (g @ '')'') = '')''"
    using assms(2) cl by simp_all
  then have "match_results (''Results: ('' @ g @ '')'') = Some g"
    using assms(1) by (simp add: match_results_def isspace_def)
  then show ?thesis
    by simp
qed

lemma strip_label: "strip (''Results: ('' @ g @ '')'') = ''Results: ('' @ g @ '')''"
  by (simp add: strip_def isspace_def)

lemma total_of_label:
  assumes "List.find results_th (map fst (descends [] soup)) = Some th"
    and "tag_string th = Some (''Results: ('' @ g @ '')'')"
    and "g \<noteq> []" and "\<forall>c \<in> set g. digit_or_comma c"
  shows "total_of_soup max_digits soup = int_of_str max_digits (filter (\<lambda>c. c \<noteq> CHR '','') g)"
proof -
  have "get_text_strip th = ''Results: ('' @ g @ '')''"
    using tag_string_strings [OF assms(2)] strip_label [of g]
    by (simp add: get_text_strip_def del: append.simps)
  then show ?thesis
    using assms(1) search_results_label [OF assms(3,4)]
    by (simp add: total_of_soup_def del: append.simps)
qed

lemma filter_commas:
  assumes "\<forall>c \<in> set g. digit_or_comma c"
  shows "filter (\<lambda>c. c \<noteq> CHR '','') g = filter isdigit g"
  using assms by (induction g) (auto simp: digit_or_comma_def isdigit_def)

lemma fetch_url_serving:
  "fst (fetch_url (serving doc) url 5 w) = Inr (Some ''<html>'')"
  by (simp add: fetch_url_def serving_def numeral_nat requests_get_def sleep_jitter_def)

lemma get_total_results_serving:
  "fst (get_total_results (serving doc) genre w) = Inr (total_of_soup 4300 doc)"
proof -
  let ?f = "fetch_url (serving doc) (base_url (serving doc) genre @ ''&page=1'') 5 w"
  have "fst ?f = Inr (Some ''<html>'')"
    by (rule fetch_url_serving)
  then show ?thesis
    by (cases ?f) (simp add: get_total_results_def serving_def)
qed

lemma find_results_page:
  assumes "search_results label \<noteq> None"
  shows "List.find results_th (map fst (descends [] (results_page label table_rows))) =
     Some (Tag ''th'' [(''colspan'', ''3'')] [Text label])"
  using assms by (simp add: results_page_def results_th_def is_tag_def)

text \<open>
  The exception of the fetcher (C4) passes through count discovery: nothing between
  \<^verbatim>\<open>fetch_url\<close> and the caller catches it.
\<close>

lemma get_total_results_raises:
  "fst (get_total_results (answering 429 [] (Some ''soon'')) ''Sports'' fresh) = Inl ValueError"
  by code_simp

text \<open>
  C5. The specification has count discovery return the number for every page that
  contains a header label \<^verbatim>\<open>Results: (N)\<close>. The code asks for a header cell whose
  \<^verbatim>\<open>.string\<close> is matched by the pattern, and a cell has a \<^verbatim>\<open>.string\<close> only when
  a single text stands in it; and \<^verbatim>\<open>int\<close> refuses a literal of more digits than the
  interpreter's limit, which the \<^verbatim>\<open>except ValueError\<close> turns into \<^verbatim>\<open>None\<close>. So
  a label with a line break behind it, and a label of 4301 digits, both give \<^verbatim>\<open>None\<close>.
\<close>

theorem get_total_results_not_every_label:
  "fst (get_total_results (serving label_with_break) ''Sports'' fresh) = Inr None \<and>
   fst (get_total_results
     (serving (results_page (''Results: ('' @ replicate 4301 (CHR ''7'') @ '')'') []))
     ''Sports'' fresh) = Inr None"
proof -
  have "total_of_soup 4300 label_with_break = None"
    by code_simp
  then have a: "fst (get_total_results (serving label_with_break) ''Sports'' fresh) = Inr None"
    by (simp add: get_total_results_serving)
  let ?g = "replicate 4301 (CHR ''7'')"
  let ?label = "''Results: ('' @ ?g @ '')''"
  have g: "?g \<noteq> []" "\<forall>c \<in> set ?g. digit_or_comma c"
    by (simp_all add: digit_or_comma_def isdigit_def)
  have "search_results ?label \<noteq> None"
    using search_results_label [OF g] by simp
  from find_results_page [OF this]
  have "total_of_soup 4300 (results_page ?label []) =
      int_of_str 4300 (filter (\<lambda>c. c \<noteq> CHR '','') ?g)"
    by (rule total_of_label) (simp_all add: g)
  also have "filter (\<lambda>c. c \<noteq> CHR '','') ?g = ?g"
    by simp
  also have "int_of_str 4300 ?g = None"
    by (rule int_of_str_too_long) (simp_all add: isdigit_def)
  finally have "fst (get_total_results (serving (results_page ?label [])) ''Sports'' fresh) = Inr None"
    by (simp only: get_total_results_serving)
  with a show ?thesis by blast
qed

text \<open>
  C5, as the code has it. Let the first header cell whose \<^verbatim>\<open>.string\<close> the pattern
  matches carry the label \<^verbatim>\<open>Results: (N)\<close>, \<open>N\<close> being digits and commas. When \<open>N\<close>
  has a digit and no more digits than the interpreter's limit for \<^verbatim>\<open>int\<close> (4300 unless
  changed, 0 for none), count discovery returns the number the digits of \<open>N\<close> denote.
  It returns \<^verbatim>\<open>None\<close> when \<open>N\<close> has no digit or more digits than the limit, when no
  header cell has a matching \<^verbatim>\<open>.string\<close>, and when the fetcher handed back \<^verbatim>\<open>None\<close>
  or an empty page.
\<close>

theorem get_total_results_label:
  "(fst (fetch_url e (base_url e genre @ ''&page=1'') 5 w) = Inr None \<or>
    fst (fetch_url e (base_url e genre @ ''&page=1'') 5 w) = Inr (Some []) \<longrightarrow>
      fst (get_total_results e genre w) = Inr None) \<and>
   (fst (fetch_url e (base_url e genre @ ''&page=1'') 5 w) = Inr (Some html) \<and>
    List.find results_th (map fst (descends [] (parse_html e html))) = None \<longrightarrow>
      fst (get_total_results e genre w) = Inr None) \<and>
   (fst (fetch_url e (base_url e genre @ ''&page=1'') 5 w) = Inr (Some html) \<and> html \<noteq> [] \<and>
    List.find results_th (map fst (descends [] (parse_html e html))) = Some th \<and>
    tag_string th = Some (''Results: ('' @ g @ '')'') \<and>
    (\<forall>c \<in> set g. digit_or_comma c) \<and> (\<exists>c \<in> set g. isdigit c) \<and>
    (int_max_str_digits e = 0 \<or> length (filter isdigit g) \<le> int_max_str_digits e) \<longrightarrow>
      fst (get_total_results e genre w) = Inr (Some (decimal (filter isdigit g)))) \<and>
   (fst (fetch_url e (base_url e genre @ ''&page=1'') 5 w) = Inr (Some html) \<and>
    List.find results_th (map fst (descends [] (parse_html e html))) = Some th \<and>
    tag_string th = Some (''Results: ('' @ g @ '')'') \<and>
    g \<noteq> [] \<and> (\<forall>c \<in> set g. c = CHR '','') \<longrightarrow>
      fst (get_total_results e genre w) = Inr None) \<and>
   (fst (fetch_url e (base_url e genre @ ''&page=1'') 5 w) = Inr (Some html) \<and>
    List.find results_th (map fst (descends [] (parse_html e html))) = Some th \<and>
    tag_string th = Some (''Results: ('' @ g @ '')'') \<and>
    (\<forall>c \<in> set g. digit_or_comma c) \<and>
    0 < int_max_str_digits e \<and> int_max_str_digits e < length (filter isdigit g) \<longrightarrow>
      fst (get_total_results e genre w) = Inr None)"
proof -
  let ?f = "fetch_url e (base_url e genre @ ''&page=1'') 5 w"
  let ?m = "int_max_str_digits e"
  have none: "fst (get_total_results e genre w) = Inr None"
    if "fst ?f = Inr None \<or> fst ?f = Inr (Some [])"
    using that by (cases ?f) (auto simp: get_total_results_def)
  have page: "fst (get_total_results e genre w) =
      Inr (if html = [] then None else total_of_soup ?m (parse_html e html))"
    if "fst ?f = Inr (Some html)"
    using that by (cases ?f) (simp add: get_total_results_def)
  have absent: "fst (get_total_results e genre w) = Inr None"
    if "fst ?f = Inr (Some html)"
      and "List.find results_th (map fst (descends [] (parse_html e html))) = None"
    using that by (simp add: page total_of_soup_def)
  have number: "fst (get_total_results e genre w) = Inr (Some (decimal (filter isdigit g)))"
    if "fst ?f = Inr (Some html)" and "html \<noteq> []"
      and f: "List.find results_th (map fst (descends [] (parse_html e html))) = Some th"
      and l: "tag_string th = Some (''Results: ('' @ g @ '')'')"
      and dc: "\<forall>c \<in> set g. digit_or_comma c" and d: "\<exists>c \<in> set g. isdigit c"
      and m: "?m = 0 \<or> length (filter isdigit g) \<le> ?m"
  proof -
    have "g \<noteq> []" using d by auto
    from total_of_label [OF f l this dc]
    have "total_of_soup ?m (parse_html e html) = int_of_str ?m (filter isdigit g)"
      by (simp add: filter_commas [OF dc])
    moreover have "filter isdigit g \<noteq> []"
      using d by (simp add: filter_empty_conv)
    ultimately have "total_of_soup ?m (parse_html e html) = Some (decimal (filter isdigit g))"
      using m by (simp add: int_of_str_digits)
    with that(1,2) show ?thesis by (simp add: page)
  qed
  have commas: "fst (get_total_results e genre w) = Inr None"
    if "fst ?f = Inr (Some html)"
      and f: "List.find results_th (map fst (descends [] (parse_html e html))) = Some th"
      and l: "tag_string th = Some (''Results: ('' @ g @ '')'')"
      and "g \<noteq> []" and c: "\<forall>c \<in> set g. c = CHR '',''"
  proof -
    have dc: "\<forall>c \<in> set g. digit_or_comma c"
      using c by (simp add: digit_or_comma_def)
    have "filter (\<lambda>c. c \<noteq> CHR '','') g = []"
      using c by (simp add: filter_empty_conv)
    with total_of_label [OF f l that(4) dc]
    have "total_of_soup ?m (parse_html e html) = None"
      by (simp add: int_of_str_def)
    with that(1) show ?thesis by (simp add: page)
  qed
  have long: "fst (get_total_results e genre w) = Inr None"
    if "fst ?f = Inr (Some html)"
      and f: "List.find results_th (map fst (descends [] (parse_html e html))) = Some th"
      and l: "tag_string th = Some (''Results: ('' @ g @ '')'')"
      and dc: "\<forall>c \<in> set g. digit_or_comma c"
      and m: "0 < ?m" "?m < length (filter isdigit g)"
  proof -
    have "g \<noteq> []" using m by auto
    from total_of_label [OF f l this dc]
    have "total_of_soup ?m (parse_html e html) = int_of_str ?m (filter isdigit g)"
      by (simp add: filter_commas [OF dc])
    also have "\<dots> = None"
      using m by (intro int_of_str_too_long) simp_all
    finally show ?thesis
      using that(1) by (simp add: page)
  qed
  show ?thesis
    using none absent number commas long by blast
qed

theorem get_total_results_label_witness:
  "fst (fetch_url (serving (results_page ''Results: (12,345)'' [])) (base_url (serving (results_page ''Results: (12,345)'' [])) ''Sports'' @ ''&page=1'') 5 fresh) =
     Inr (Some ''<html>'') \<and>
   ''<html>'' \<noteq> [] \<and>
   List.find results_th
     (map fst (descends [] (parse_html (serving (results_page ''Results: (12,345)'' [])) ''<html>''))) =
     Some (Tag ''th'' [(''colspan'', ''3'')] [Text ''Results: (12,345)'']) \<and>
   tag_string (Tag ''th'' [(''colspan'', ''3'')] [Text ''Results: (12,345)'']) =
     Some (''Results: ('' @ ''12,345'' @ '')'') \<and>
   list_all digit_or_comma ''12,345'' \<and> list_ex isdigit ''12,345'' \<and>
   length (filter isdigit ''12,345'') \<le>
     int_max_str_digits (serving (results_page ''Results: (12,345)'' [])) \<and>
   decimal (filter isdigit ''12,345'') = 12345 \<and>
   fst (get_total_results (serving (results_page ''Results: (12,345)'' [])) ''Sports'' fresh) =
     Inr (Some 12345) \<and>
   fst (fetch_url (answering 500 ''oops'' None)
     (base_url (answering 500 ''oops'' None) ''Sports'' @ ''&page=1'') 5 fresh) = Inr None \<and>
   fst (get_total_results (answering 500 ''oops'' None) ''Sports'' fresh) = Inr None \<and>
   List.find results_th
     (map fst (descends [] (parse_html (serving (results_page ''No results'' [])) ''<html>''))) = None \<and>
   fst (get_total_results (serving (results_page ''No results'' [])) ''Sports'' fresh) = Inr None \<and>
   List.find results_th
     (map fst (descends [] (parse_html (serving (results_page ''Results: (,)'' [])) ''<html>''))) =
     Some (Tag ''th'' [(''colspan'', ''3'')] [Text ''Results: (,)'']) \<and>
   fst (get_total_results (serving (results_page ''Results: (,)'' [])) ''Sports'' fresh) = Inr None \<and>
   0 < int_max_str_digits (serving (results_page (''Results: ('' @ replicate 4301 (CHR ''7'') @ '')'') [])) \<and>
   int_max_str_digits (serving (results_page (''Results: ('' @ replicate 4301 (CHR ''7'') @ '')'') [])) <
     length (filter isdigit (replicate 4301 (CHR ''7''))) \<and>
   fst (get_total_results
     (serving (results_page (''Results: ('' @ replicate 4301 (CHR ''7'') @ '')'') []))
     ''Sports'' fresh) = Inr None"
proof -
  let ?e = "serving (results_page ''Results: (12,345)'' [])"
  let ?th = "Tag ''th'' [(''colspan'', ''3'')] [Text ''Results: (12,345)'']"
  have a: "fst (fetch_url ?e (base_url ?e ''Sports'' @ ''&page=1'') 5 fresh) = Inr (Some ''<html>'')"
    by code_simp
  have b: "''<html>'' \<noteq> []"
    by simp
  have c: "List.find results_th (map fst (descends [] (parse_html ?e ''<html>''))) = Some ?th"
    by code_simp
  have d: "tag_string ?th = Some (''Results: ('' @ ''12,345'' @ '')'')"
    by simp
  have f: "list_all digit_or_comma ''12,345''" and g: "list_ex isdigit ''12,345''"
    by code_simp+
  have m: "length (filter isdigit ''12,345'') \<le> int_max_str_digits ?e"
    by (simp add: serving_def isdigit_def)
  have h: "decimal (filter isdigit ''12,345'') = 12345"
    by code_simp
  have f': "\<forall>c \<in> set ''12,345''. digit_or_comma c" and g': "\<exists>c \<in> set ''12,345''. isdigit c"
    using f g unfolding list_all_iff list_ex_iff by blast+
  from get_total_results_label [of ?e "''Sports''" fresh "''<html>''" ?th "''12,345''"] a b c d f' g' m
  have "fst (get_total_results ?e ''Sports'' fresh) = Inr (Some (decimal (filter isdigit ''12,345'')))"
    by blast
  then have r: "fst (get_total_results ?e ''Sports'' fresh) = Inr (Some 12345)"
    unfolding h .
  let ?e1 = "answering 500 ''oops'' None"
  have a1: "fst (fetch_url ?e1 (base_url ?e1 ''Sports'' @ ''&page=1'') 5 fresh) = Inr None"
    by code_simp
  from get_total_results_label [of ?e1 "''Sports''" fresh] a1
  have r1: "fst (get_total_results ?e1 ''Sports'' fresh) = Inr None"
    by blast
  let ?e2 = "serving (results_page ''No results'' [])"
  have a2: "fst (fetch_url ?e2 (base_url ?e2 ''Sports'' @ ''&page=1'') 5 fresh) = Inr (Some ''<html>'')"
    by (rule fetch_url_serving)
  have c2: "List.find results_th (map fst (descends [] (parse_html ?e2 ''<html>''))) = None"
    by code_simp
  from get_total_results_label [of ?e2 "''Sports''" fresh "''<html>''"] a2 c2
  have r2: "fst (get_total_results ?e2 ''Sports'' fresh) = Inr None"
    by blast
  let ?e3 = "serving (results_page ''Results: (,)'' [])"
  let ?th3 = "Tag ''th'' [(''colspan'', ''3'')] [Text ''Results: (,)'']"
  have a3: "fst (fetch_url ?e3 (base_url ?e3 ''Sports'' @ ''&page=1'') 5 fresh) = Inr (Some ''<html>'')"
    by (rule fetch_url_serving)
  have c3: "List.find results_th (map fst (descends [] (parse_html ?e3 ''<html>''))) = Some ?th3"
    by code_simp
  have d3: "tag_string ?th3 = Some (''Results: ('' @ '','' @ '')'')" "'','' \<noteq> []"
    "\<forall>c \<in> set '',''. c = CHR '',''"
    by simp_all
  from get_total_results_label [of ?e3 "''Sports''" fresh "''<html>''" ?th3 "'',''"] a3 c3 d3
  have r3: "fst (get_total_results ?e3 ''Sports'' fresh) = Inr None"
    by blast
  let ?g = "replicate 4301 (CHR ''7'')"
  let ?label = "''Results: ('' @ ?g @ '')''"
  let ?e4 = "serving (results_page ?label [])"
  let ?th4 = "Tag ''th'' [(''colspan'', ''3'')] [Text ?label]"
  have a4: "fst (fetch_url ?e4 (base_url ?e4 ''Sports'' @ ''&page=1'') 5 fresh) = Inr (Some ''<html>'')"
    by (rule fetch_url_serving)
  have g4: "?g \<noteq> []" "\<forall>c \<in> set ?g. digit_or_comma c"
    by (simp_all add: digit_or_comma_def isdigit_def)
  have "search_results ?label \<noteq> None"
    using search_results_label [OF g4] by simp
  from find_results_page [OF this]
  have c4: "List.find results_th (map fst (descends [] (parse_html ?e4 ''<html>''))) = Some ?th4"
    by (simp add: serving_def)
  have d4: "tag_string ?th4 = Some ?label"
    by simp
  have m4: "0 < int_max_str_digits ?e4" "int_max_str_digits ?e4 < length (filter isdigit ?g)"
    by (simp_all add: serving_def isdigit_def)
  from get_total_results_label [of ?e4 "''Sports''" fresh "''<html>''" ?th4 ?g] a4 c4 d4 g4(2) m4
  have r4: "fst (get_total_results ?e4 ''Sports'' fresh) = Inr None"
    by blast
  from a b c d f g m h r a1 r1 c2 r2 c3 r3 m4 r4 show ?thesis by blast
qed

section \<open>The orchestrator\<close>

subsection \<open>The number of pages\<close>

text \<open>
  \<^verbatim>\<open>math.ceil(total / RESULTS_PER_PAGE)\<close> divides two integers with \<^verbatim>\<open>/\<close>: the quotient
  is a binary64 floating point number, the exact quotient rounded to 53 significant
  bits, ties to even, and \<^verbatim>\<open>OverflowError\<close> beyond the range of binary64. The model
  keeps that number as a rational. \<open>binary_exponent a b\<close> is the \<open>e\<close> with
  \<open>2 ^ e \<le> a / b < 2 ^ (e + 1)\<close>, for positive \<open>a\<close> and \<open>b\<close>. A quotient by the page
  size is 0 or at least \<open>1 / 200\<close>, so no subnormal number arises.
\<close>

function ilog2 :: "int \<Rightarrow> int" where
  "ilog2 n = (if n < 2 then 0 else 1 + ilog2 (n div 2))"
  by pat_completeness auto
termination
  by (relation "measure nat") auto

function doublings :: "int \<Rightarrow> int \<Rightarrow> int" where
  "doublings a b = (if a \<le> 0 \<or> b \<le> a then 0 else 1 + doublings (2 * a) b)"
  by pat_completeness auto
termination
  by (relation "measure (\<lambda>(a, b). nat (b - a))") auto

definition binary_exponent :: "int \<Rightarrow> int \<Rightarrow> int" where
  "binary_exponent a b = (if b \<le> a then ilog2 (a div b) else - doublings a b)"

definition round_half_even :: "rat \<Rightarrow> int" where
  "round_half_even x =
     (let f = \<lfloor>x\<rfloor>; d = x - of_int f
      in if d < 1 / 2 then f else if 1 / 2 < d then f + 1 else if even f then f else f + 1)"

definition to_binary64 :: "int \<Rightarrow> int \<Rightarrow> rat" where
  "to_binary64 a b =
     (let ulp = 2 powi (binary_exponent a b - 52)
      in of_int (round_half_even (of_int a / of_int b / ulp)) * ulp)"

definition quotient_by_page_size :: "int \<Rightarrow> error + rat" where
  "quotient_by_page_size tot =
     (if tot = 0 then Inr 0
      else
        let v = to_binary64 \<bar>tot\<bar> (int RESULTS_PER_PAGE)
        in if 2 ^ 1024 \<le> v then Inl OverflowError
           else Inr (if tot < 0 then - v else v))"

definition total_pages :: "int \<Rightarrow> error + int" where
  "total_pages tot =
     (case quotient_by_page_size tot of Inl err \<Rightarrow> Inl err | Inr v \<Rightarrow> Inr \<lceil>v\<rceil>)"

text \<open>\<^verbatim>\<open>range(1, total_pages + 1)\<close>\<close>

definition page_numbers :: "int \<Rightarrow> nat list" where
  "page_numbers pages = [1..<Suc (nat pages)]"

subsection \<open>The pages of a genre\<close>

text \<open>
  The pool runs \<^verbatim>\<open>scrape_page\<close> once for each submitted page. The pages of a genre
  have different URLs and a call touches the responses of its own URL only, so the
  calls do not depend on how the two workers interleave; the model makes them in the
  order of submission and keeps each outcome, rows or exception, with its page number.
\<close>

fun run_pages ::
  "env \<Rightarrow> string \<Rightarrow> string \<Rightarrow> nat list \<Rightarrow> world \<Rightarrow>
     (nat \<times> (error + string list list)) list \<times> world" where
  "run_pages e url0 genre [] w = ([], w)"
| "run_pages e url0 genre (page # rest) w =
     (case scrape_page e (url0 @ ''&page='' @ str_nat page) genre w of
        (r, w1) \<Rightarrow>
          (case run_pages e url0 genre rest w1 of
             (rs, w2) \<Rightarrow> ((page, r) # rs, w2)))"

text \<open>
  \<^verbatim>\<open>as_completed\<close> hands the futures over in the order they complete: \<open>nextf\<close> picks
  one of the pending ones each time.
\<close>

function as_completed :: "(nat list \<Rightarrow> nat) \<Rightarrow> (nat \<times> 'a) list \<Rightarrow> (nat \<times> 'a) list" where
  "as_completed nextf futures =
     (if futures = [] then []
      else
        let i = nextf (map fst futures) mod length futures
        in futures ! i # as_completed nextf (take i futures @ drop (Suc i) futures))"
  by pat_completeness auto
termination
proof (relation "measure (\<lambda>(nextf, futures). length futures)", goal_cases)
  case 1
  show ?case by simp
next
  case (2 nextf futures i)
  then have "i < length futures"
    by simp
  then show ?case
    by (simp add: min_def)
qed

text \<open>
  \<^verbatim>\<open>genre_data.extend(page_data)\<close> for each future; an exception of a page is caught
  and only reported.
\<close>

definition collect :: "(nat \<times> (error + string list list)) list \<Rightarrow> string list list" where
  "collect completed =
     concat (map (\<lambda>(page, r). case r of Inl err \<Rightarrow> [] | Inr page_data \<Rightarrow> page_data) completed)"

subsection \<open>The run\<close>

text \<open>
  The loop over the genres, with the rows collected so far. A genre without a count is
  skipped; an exception of count discovery or of the division ends the run.
\<close>

fun genres_loop ::
  "env \<Rightarrow> string list \<Rightarrow> string list list \<Rightarrow> world \<Rightarrow> (error + string list list) \<times> world" where
  "genres_loop e [] all_data w = (Inr all_data, w)"
| "genres_loop e (genre # rest) all_data w =
     (case get_total_results e genre w of
        (Inl err, w1) \<Rightarrow> (Inl err, w1)
      | (Inr None, w1) \<Rightarrow> genres_loop e rest all_data w1
      | (Inr (Some tot), w1) \<Rightarrow>
          (case total_pages tot of
             Inl err \<Rightarrow> (Inl err, w1)
           | Inr pages \<Rightarrow>
               (case run_pages e (base_url e genre) genre (page_numbers pages) w1 of
                  (futures, w2) \<Rightarrow>
                    genres_loop e rest
                      (all_data @ collect (as_completed (pick e genre) futures)) w2)))"

text \<open>
  The sheet and the data frames are lists of rows under the eight column headers;
  \<^verbatim>\<open>pd.DataFrame(all_data, columns=[...])\<close> holds the scraped strings. When the
  file exists it is read, the new rows are put behind the rows read
  (\<^verbatim>\<open>pd.concat([df_existing, df_current], ignore_index=True)\<close>) and the whole is
  written; else the new rows are written. Without genres the run ends before anything
  is written.
\<close>

definition main :: "env \<Rightarrow> world \<Rightarrow> (error + unit) \<times> world" where
  "main e w =
     (case get_genres e w of
        (Inl err, w1) \<Rightarrow> (Inl err, w1)
      | (Inr genres, w1) \<Rightarrow>
          if genres = [] then (Inr (), w1)
          else
            (case genres_loop e genres [] w1 of
               (Inl err, w2) \<Rightarrow> (Inl err, w2)
             | (Inr all_data, w2) \<Rightarrow>
                 (let df_current = map (map Str) all_data in
                  case excel_file w2 of
                    Some sheet \<Rightarrow>
                      (let df_existing = read_excel e sheet;
                           df_combined = df_existing @ df_current
                       in (Inr (), w2\<lparr>excel_file := Some (to_excel e df_combined)\<rparr>))
                  | None \<Rightarrow> (Inr (), w2\<lparr>excel_file := Some (to_excel e df_current)\<rparr>))))"

text \<open>Fixtures: a site with one genre and one game, and a spreadsheet of an earlier run.\<close>

definition genre_page :: "node list" where
  "genre_page =
     [Tag ''form'' []
        [Tag ''select'' [(''name'', ''genre'')]
           [Tag ''option'' [(''value'', [])] [Text ''All''],
            Tag ''option'' [(''value'', ''Sports'')] [Text ''Sports'']]]]"

definition site :: "string \<Rightarrow> env" where
  "site label =
     \<lparr>net = (\<lambda>url k. \<lparr>status_code = 200,
        body = (if url = ''https://www.vgchartz.com/games/games.php'' then ''genres'' else ''games''),
        retry_after = None\<rparr>),
      sleep_limit = 86400, int_max_str_digits = 4300,
      parse_html = (\<lambda>s. if s = ''genres'' then genre_page else results_page label [super_row]),
      quote_plus = (\<lambda>s. s), pick = (\<lambda>g ps. 0),
      read_excel = map (map read_cell), to_excel = map (map write_cell)\<rparr>"

definition earlier :: "string list list" where
  "earlier = [[''Wii'', ''Wii Sports'', ''Nintendo'', ''N/A'', ''82.90m'', ''19th Nov 06'',
               ''02nd Apr 20'', ''Sports'']]"

declare ilog2.simps [simp del] doublings.simps [simp del]

lemma ilog2_nonneg: "0 \<le> ilog2 n"
  by (induction n rule: ilog2.induct) (subst ilog2.simps, simp)

lemma ilog2_power: "1 \<le> n \<Longrightarrow> 2 ^ nat (ilog2 n) \<le> n"
proof (induction n rule: ilog2.induct)
  case (1 n)
  show ?case
  proof (cases "n < 2")
    case True
    with "1.prems" show ?thesis by (subst ilog2.simps) simp
  next
    case False
    then have "1 \<le> n div 2" by simp
    with "1.IH" False have ih: "2 ^ nat (ilog2 (n div 2)) \<le> n div 2" by simp
    have "nat (1 + ilog2 (n div 2)) = Suc (nat (ilog2 (n div 2)))"
      using ilog2_nonneg [of "n div 2"] by simp
    then have "(2::int) ^ nat (1 + ilog2 (n div 2)) = 2 * 2 ^ nat (ilog2 (n div 2))"
      by simp
    also have "\<dots> \<le> 2 * (n div 2)" using ih by simp
    also have "\<dots> \<le> n" by simp
    finally show ?thesis using False by (subst ilog2.simps) simp
  qed
qed

lemma ilog2_less:
  assumes "1 \<le> n" and "n < 2 ^ k"
  shows "ilog2 n < int k"
proof -
  have "(2::int) ^ nat (ilog2 n) < 2 ^ k"
    using ilog2_power [OF assms(1)] assms(2) by linarith
  then have "nat (ilog2 n) < k"
    by (rule power_less_imp_less_exp [rotated]) simp
  then show ?thesis by simp
qed

lemma doublings_nonneg: "0 \<le> doublings a b"
  by (induction a b rule: doublings.induct) (subst doublings.simps, simp)

lemma binary_exponent_less:
  assumes "0 < a" and "0 < b" and "a < b * 2 ^ k"
  shows "binary_exponent a b < int k \<or> binary_exponent a b \<le> 0"
proof (cases "b \<le> a")
  case True
  then have "0 < a div b"
    using assms(2) by (simp add: pos_imp_zdiv_pos_iff)
  then have "1 \<le> a div b"
    by simp
  moreover have "a div b < 2 ^ k"
  proof (rule ccontr)
    assume "\<not> a div b < 2 ^ k"
    then have "b * 2 ^ k \<le> b * (a div b)"
      using assms(2) by (simp add: mult_left_mono)
    also have "\<dots> \<le> a"
    proof -
      have "0 \<le> a mod b" "b * (a div b) + a mod b = a"
        using assms(2) by simp_all
      then show ?thesis by linarith
    qed
    finally show False
      using assms(3) by simp
  qed
  ultimately show ?thesis
    using True by (simp add: binary_exponent_def ilog2_less)
next
  case False
  then show ?thesis
    using doublings_nonneg [of a b] by (simp add: binary_exponent_def)
qed

lemma round_half_even_error: "\<bar>of_int (round_half_even x) - x\<bar> \<le> 1 / 2"
proof -
  have "of_int \<lfloor>x\<rfloor> \<le> x" "x < of_int \<lfloor>x\<rfloor> + 1"
    by linarith+
  then show ?thesis
    unfolding round_half_even_def Let_def by (auto simp: abs_le_iff)
qed

lemma round_half_even_of_int: "round_half_even (of_int j) = j"
  by (simp add: round_half_even_def)


lemma to_binary64_error:
  "\<bar>to_binary64 a b - of_int a / of_int b\<bar> \<le> 2 powi (binary_exponent a b - 53)"
proof -
  define u :: rat where "u = 2 powi (binary_exponent a b - 52)"
  define q :: rat where "q = of_int a / of_int b"
  have u: "0 < u"
    by (simp add: u_def)
  have "to_binary64 a b = of_int (round_half_even (q / u)) * u"
    by (simp add: to_binary64_def u_def q_def Let_def)
  then have "to_binary64 a b - q = (of_int (round_half_even (q / u)) - q / u) * u"
    using u by (simp add: algebra_simps)
  then have "\<bar>to_binary64 a b - q\<bar> = \<bar>of_int (round_half_even (q / u)) - q / u\<bar> * u"
    using u by (simp add: abs_mult)
  also have "\<dots> \<le> 1 / 2 * u"
    using round_half_even_error [of "q / u"] u by (intro mult_right_mono) auto
  also have "1 / 2 * u = 2 powi (binary_exponent a b - 53)"
  proof -
    have "(2::rat) powi (binary_exponent a b - 53 + 1) = 2 powi (binary_exponent a b - 53) * 2"
      by (rule power_int_add_1) simp
    then show ?thesis
      by (simp add: u_def)
  qed
  finally show ?thesis
    by (simp add: q_def)
qed

lemma to_binary64_exact:
  assumes "binary_exponent a b \<le> 52" and "b dvd a"
  shows "to_binary64 a b = of_int (a div b)"
proof -
  define n where "n = nat (52 - binary_exponent a b)"
  have "binary_exponent a b - 52 = - int n"
    using assms(1) by (simp add: n_def)
  then have u: "(2::rat) powi (binary_exponent a b - 52) = inverse (2 ^ n)"
    by (simp add: power_int_minus)
  have q: "(of_int a / of_int b :: rat) = of_int (a div b)"
    using assms(2) by (simp add: of_int_div)
  have "of_int a / of_int b / inverse (2 ^ n) = (of_int (a div b * 2 ^ n) :: rat)"
    unfolding q by (simp add: field_simps)
  then have "round_half_even (of_int a / of_int b / inverse (2 ^ n)) = a div b * 2 ^ n"
    by (simp only: round_half_even_of_int)
  then show ?thesis
    by (simp add: to_binary64_def u Let_def)
qed

lemma total_pages_exact:
  assumes "0 \<le> tot" and "tot \<le> 200 * 2 ^ 46"
  shows "total_pages tot = Inr \<lceil>of_int tot / (200::rat)\<rceil>"
proof (cases "tot = 0")
  case True
  then show ?thesis
    by (simp add: total_pages_def quotient_by_page_size_def)
next
  case False
  with assms(1) have pos: "0 < tot"
    by simp
  define v where "v = to_binary64 tot 200"
  define q :: rat where "q = of_int tot / 200"
  have key: "\<lceil>v\<rceil> = \<lceil>q\<rceil> \<and> v < 2 ^ 1024"
  proof (cases "200 dvd tot")
    case True
    have "tot < 200 * 2 ^ 47"
      using assms(2) by simp
    from binary_exponent_less [OF pos _ this] have "binary_exponent tot 200 \<le> 52"
      by auto
    from to_binary64_exact [OF this True] have vq: "v = of_int (tot div 200)"
      by (simp add: v_def)
    moreover have "q = of_int (tot div 200)"
      using of_int_div [OF True, where ?'a = rat] by (simp add: q_def)
    moreover have "tot div 200 \<le> 2 ^ 46"
      using assms(2) by simp
    then have "(of_int (tot div 200) :: rat) \<le> 2 ^ 46"
      by (metis of_int_le_iff of_int_numeral of_int_power)
    then have "(of_int (tot div 200) :: rat) < 2 ^ 1024"
      by (rule le_less_trans) simp
    ultimately show ?thesis
      by simp
  next
    case False
    then have "tot \<noteq> 200 * 2 ^ 46"
      by auto
    with assms(2) have "tot < 200 * 2 ^ 46"
      by simp
    from binary_exponent_less [OF pos _ this] have e: "binary_exponent tot 200 - 53 \<le> - 8"
      by auto
    have "\<bar>v - q\<bar> \<le> 2 powi (binary_exponent tot 200 - 53)"
      using to_binary64_error [of tot 200] by (simp add: v_def q_def)
    also have "\<dots> \<le> 2 powi (- 8)"
      using e by (intro power_int_increasing) simp_all
    finally have err: "\<bar>v - q\<bar> \<le> 1 / 256"
      by (simp add: power_int_minus)
    define k where "k = tot div 200"
    define r where "r = tot mod 200"
    have "tot = 200 * k + r"
      by (simp add: k_def r_def)
    then have "(of_int tot :: rat) = 200 * of_int k + of_int r"
      by (metis of_int_add of_int_mult of_int_numeral)
    then have q: "q = of_int k + of_int r / 200"
      by (simp add: q_def)
    have "0 \<le> r" "r < 200" "r \<noteq> 0"
      using False by (simp_all add: r_def dvd_eq_mod_eq_0)
    then have "1 \<le> r" "r \<le> 199"
      by simp_all
    then have r: "(1::rat) \<le> of_int r" "(of_int r :: rat) \<le> 199"
      by (metis of_int_1 of_int_le_iff, metis of_int_le_iff of_int_numeral)
    have cq: "\<lceil>q\<rceil> = k + 1"
      unfolding q using r by (intro ceiling_unique) simp_all
    have cv: "\<lceil>v\<rceil> = k + 1"
    proof (rule ceiling_unique)
      have "q - 1 / 256 \<le> v" "v \<le> q + 1 / 256"
        using err by linarith+
      moreover have "(1::rat) / 200 \<le> of_int r / 200" "(of_int r :: rat) / 200 \<le> 199 / 200"
        using r by simp_all
      ultimately have "of_int k < v" "v \<le> of_int k + 1"
        unfolding q by linarith+
      then show "of_int (k + 1) - 1 < v" "v \<le> of_int (k + 1)"
        by simp_all
    qed
    have "k < 2 ^ 46"
      using \<open>tot < 200 * 2 ^ 46\<close> by (simp add: k_def)
    then have "k + 1 \<le> 2 ^ 46"
      by simp
    then have "(of_int (k + 1) :: rat) \<le> 2 ^ 46"
      by (metis of_int_le_iff of_int_numeral of_int_power)
    moreover have "v \<le> of_int (k + 1)"
      using cv by (metis le_of_int_ceiling)
    ultimately have "v \<le> 2 ^ 46"
      by linarith
    then have "v < 2 ^ 1024"
      by (rule le_less_trans) simp
    with cq cv show ?thesis
      by simp
  qed
  then show ?thesis
    using pos
    by (simp add: total_pages_def quotient_by_page_size_def RESULTS_PER_PAGE_def v_def q_def
        Let_def not_le [symmetric])
qed

declare as_completed.simps [simp del]

lemma as_completed_Nil: "as_completed nextf [] = []"
  by (subst as_completed.simps) simp

lemma run_pages_tasks: "map fst (fst (run_pages e url0 genre pages w)) = pages"
  by (induction pages arbitrary: w) (simp_all add: case_prod_beta)

text \<open>Nothing before the last step of \<^verbatim>\<open>main\<close> touches the spreadsheet.\<close>

lemma fetch_loop_file: "excel_file (snd (fetch_loop e url n w)) = excel_file w"
proof (induction n arbitrary: w)
  case 0
  show ?case by simp
next
  case (Suc n)
  show ?case
    by (simp add: requests_get_def sleep_jitter_def time_sleep_def Suc.IH split: sum.split)
qed

lemma fetch_url_file: "excel_file (snd (fetch_url e url n w)) = excel_file w"
  by (simp add: fetch_url_def fetch_loop_file)

lemma get_genres_file: "excel_file (snd (get_genres e w)) = excel_file w"
proof -
  have "snd (get_genres e w) = snd (fetch_url e ''https://www.vgchartz.com/games/games.php'' 5 w)"
    by (simp add: get_genres_def split: prod.split sum.split option.split)
  then show ?thesis
    by (simp add: fetch_url_file)
qed

lemma get_total_results_file: "excel_file (snd (get_total_results e genre w)) = excel_file w"
proof -
  have "snd (get_total_results e genre w) = snd (fetch_url e (base_url e genre @ ''&page=1'') 5 w)"
    by (simp add: get_total_results_def split: prod.split sum.split option.split)
  then show ?thesis
    by (simp add: fetch_url_file)
qed

lemma scrape_page_file: "excel_file (snd (scrape_page e url genre w)) = excel_file w"
proof -
  have "snd (scrape_page e url genre w) = snd (fetch_url e url 5 w)"
    by (simp add: scrape_page_def split: prod.split sum.split option.split)
  then show ?thesis
    by (simp add: fetch_url_file)
qed

lemma run_pages_file: "excel_file (snd (run_pages e url0 genre pages w)) = excel_file w"
  by (induction pages arbitrary: w) (simp_all add: case_prod_beta scrape_page_file)

lemma genres_loop_file: "excel_file (snd (genres_loop e genres all_data w)) = excel_file w"
proof (induction genres arbitrary: all_data w)
  case Nil
  show ?case by simp
next
  case (Cons genre rest)
  show ?case
    by (simp add: case_prod_beta Cons.IH run_pages_file get_total_results_file
        split: sum.split option.split)
qed

text \<open>
  C6. The specification has the page count as the ceiling of the total over 200, for
  every total. The code takes the ceiling of a floating point quotient. From
  \<open>200 * 2 ^ 46 + 1\<close> on the quotient can round down to a whole number: for that
  total the code computes \<open>2 ^ 46\<close> pages, one less than the ceiling.
\<close>

theorem total_pages_not_ceiling:
  "total_pages (200 * 2 ^ 46 + 1) = Inr (2 ^ 46) \<and>
   \<lceil>of_int (200 * 2 ^ 46 + 1) / (of_nat RESULTS_PER_PAGE :: rat)\<rceil> = 2 ^ 46 + 1"
proof -
  have "total_pages (200 * 2 ^ 46 + 1) = Inr (2 ^ 46)"
    by code_simp
  moreover have "\<lceil>of_int (200 * 2 ^ 46 + 1) / (of_nat RESULTS_PER_PAGE :: rat)\<rceil> = 2 ^ 46 + 1"
    by code_simp
  ultimately show ?thesis by blast
qed

text \<open>
  Such a total can reach the division: it is what count discovery returns for the label
  below. Up to \<open>200 * 2 ^ 46\<close> the page count is the ceiling, and the loop runs the
  page tasks of the page numbers from 1 to it.
\<close>

lemma huge_total_received:
  "fst (get_total_results (site ''Results: (14,073,748,835,532,801)'') ''Sports'' fresh) =
     Inr (Some (200 * 2 ^ 46 + 1))"
  by code_simp

lemma total_pages_450: "total_pages 450 = Inr 3"
  by code_simp

lemma genres_loop_pages:
  assumes "get_total_results e genre w = (Inr (Some tot), w1)"
    and "0 \<le> tot" and "tot \<le> 200 * 2 ^ 46"
  shows "genres_loop e (genre # rest) all_data w =
     (case run_pages e (base_url e genre) genre
             [1..<Suc (nat \<lceil>of_int tot / (200::rat)\<rceil>)] w1 of
        (futures, w2) \<Rightarrow>
          genres_loop e rest (all_data @ collect (as_completed (pick e genre) futures)) w2)"
  using total_pages_exact [OF assms(2,3)] by (simp add: assms(1) page_numbers_def)

text \<open>
  C9. When count discovery finds the total 0 for a genre, the page count is 0, no page
  is requested, and the loop goes on to the next genre with the rows collected so far
  and the state that count discovery left.
\<close>

theorem genres_loop_zero_total:
  assumes "fst (get_total_results e genre w) = Inr (Some 0)"
  shows "total_pages 0 = Inr 0 \<and> page_numbers 0 = [] \<and>
     run_pages e (base_url e genre) genre (page_numbers 0) (snd (get_total_results e genre w)) =
       ([], snd (get_total_results e genre w)) \<and>
     genres_loop e (genre # rest) all_data w =
       genres_loop e rest all_data (snd (get_total_results e genre w))"
proof -
  have tp: "total_pages 0 = Inr 0"
    by (simp add: total_pages_def quotient_by_page_size_def)
  have pn: "page_numbers 0 = []"
    by (simp add: page_numbers_def)
  obtain w1 where g: "get_total_results e genre w = (Inr (Some 0), w1)"
    using assms by (cases "get_total_results e genre w") simp
  show ?thesis
    by (simp add: g tp pn as_completed_Nil collect_def)
qed

theorem genres_loop_zero_total_witness:
  "fst (get_total_results (site ''Results: (0)'') ''Sports'' fresh) = Inr (Some 0) \<and>
   fst (genres_loop (site ''Results: (0)'') [''Sports''] earlier fresh) = Inr earlier"
proof -
  have a: "fst (get_total_results (site ''Results: (0)'') ''Sports'' fresh) = Inr (Some 0)"
    by code_simp
  from genres_loop_zero_total [OF a, of "[]" earlier]
  have "fst (genres_loop (site ''Results: (0)'') [''Sports''] earlier fresh) = Inr earlier"
    by simp
  with a show ?thesis by blast
qed

text \<open>
  What the run writes: the rows the reader gives for the sheet, if there is one, and
  behind them the rows collected, in the order they were collected, all through the
  writer.
\<close>

lemma main_merges:
  assumes "fst (get_genres e w) = Inr genres" and "genres \<noteq> []"
    and "fst (genres_loop e genres [] (snd (get_genres e w))) = Inr new"
  shows "fst (main e w) = Inr () \<and>
     excel_file (snd (main e w)) =
       Some (to_excel e
         ((case excel_file w of None \<Rightarrow> [] | Some sheet \<Rightarrow> read_excel e sheet) @
          map (map Str) new))"
proof -
  obtain w1 where g: "get_genres e w = (Inr genres, w1)"
    using assms(1) by (cases "get_genres e w") simp
  obtain w2 where l: "genres_loop e genres [] w1 = (Inr new, w2)"
    using assms(3) g by (cases "genres_loop e genres [] w1") simp
  have "excel_file w1 = excel_file w"
    using get_genres_file [of e w] g by simp
  moreover have "excel_file w2 = excel_file w1"
    using genres_loop_file [of e genres "[]" w1] l by simp
  ultimately have "excel_file w2 = excel_file w"
    by simp
  then show ?thesis
    using assms(2) by (simp add: main_def g l Let_def split: option.split)
qed

text \<open>
  C2. The rows of the existing table are to come first with all their field values
  unchanged. The code reads the file with the defaults of \<^verbatim>\<open>pd.read_excel\<close>, which
  take the text \<^verbatim>\<open>N/A\<close> for a missing value; the run writes that value back as an
  empty cell. The sheet \<open>earlier\<close>, as a first run leaves it, has \<^verbatim>\<open>N/A\<close> in its
  fourth column; after the next run the row stands first, and that cell is empty.
\<close>

theorem main_rereads_markers:
  "earlier ! 0 ! 3 = ''N/A'' \<and>
   excel_file (snd (main (site ''Results: (1)'') (fresh\<lparr>excel_file := Some earlier\<rparr>))) =
     Some [[''Wii'', ''Wii Sports'', ''Nintendo'', [], ''82.90m'', ''19th Nov 06'',
            ''02nd Apr 20'', ''Sports''],
           [''Unknown'', ''Super Game'', ''Nintendo'', ''N/A'', ''82.90m'', ''19th Nov 06'',
            ''02nd Apr 20'', ''Sports'']]"
proof -
  have "earlier ! 0 ! 3 = ''N/A''"
    by (simp add: earlier_def)
  moreover have
    "excel_file (snd (main (site ''Results: (1)'') (fresh\<lparr>excel_file := Some earlier\<rparr>))) =
     Some [[''Wii'', ''Wii Sports'', ''Nintendo'', [], ''82.90m'', ''19th Nov 06'',
            ''02nd Apr 20'', ''Sports''],
           [''Unknown'', ''Super Game'', ''Nintendo'', ''N/A'', ''82.90m'', ''19th Nov 06'',
            ''02nd Apr 20'', ''Sports'']]"
    by code_simp
  ultimately show ?thesis by blast
qed

end
